theory Spec2Isabelle
  imports Complex_Main "HOL-Library.Word"
begin

section \<open>Undefined behaviour as a value\<close>

text \<open>
  Every operation of the C source whose behaviour is undefined is a branch of the model
  that returns an \<open>error\<close>: signed overflow, a read past the end of an array, a
  dereference of the null pointer, releasing a handle that is not live, using a handle
  that is not live, reading a freed structure, and writing past the end of an allocation.
\<close>

type_synonym handle = nat

datatype error =
    Signed_overflow
  | Out_of_bounds_read
  | Null_dereference
  | Double_free handle
  | Use_after_free handle
  | Read_after_free
  | Heap_overflow

text \<open>A C \<open>int\<close> has 32 bits; its values are modelled as \<open>int\<close> within these bounds.\<close>

definition INT_MAX :: int where
  "INT_MAX = 2147483647"

definition INT_MIN :: int where
  "INT_MIN = - 2147483648"

section \<open>Format negotiation\<close>

text \<open>
  \<open>abs_diff\<close> computes \<open>a - b\<close> in a C \<open>int\<close> and negates it when negative. Both the
  subtraction and the negation overflow outside the 32-bit range.
\<close>

definition abs_diff :: "int \<Rightarrow> int \<Rightarrow> error + int" where
  "abs_diff a b =
     (let n = a - b in
      if n < INT_MIN \<or> INT_MAX < n then Inl Signed_overflow
      else if n \<ge> 0 then Inr n
      else if INT_MAX < - n then Inl Signed_overflow
      else Inr (- n))"

text \<open>
  Modelled from the spec: the header \<open>groove.h\<close> that declares \<open>enum GrooveSampleFormat\<close>
  is not among the sources. The spec describes a sample representation as an enumerated
  kind (signedness or float, bit width, packed or planar); the constructors are the
  enumerators the source names (\<open>GROOVE_SAMPLE_FMT_NONE\<close>, \<open>GROOVE_SAMPLE_FMT_S16\<close>) and
  their siblings.
\<close>

datatype GrooveSampleFormat =
    GROOVE_SAMPLE_FMT_NONE
  | GROOVE_SAMPLE_FMT_U8
  | GROOVE_SAMPLE_FMT_S16
  | GROOVE_SAMPLE_FMT_S32
  | GROOVE_SAMPLE_FMT_FLT
  | GROOVE_SAMPLE_FMT_DBL
  | GROOVE_SAMPLE_FMT_U8P
  | GROOVE_SAMPLE_FMT_S16P
  | GROOVE_SAMPLE_FMT_S32P
  | GROOVE_SAMPLE_FMT_FLTP
  | GROOVE_SAMPLE_FMT_DBLP

text \<open>
  The three capability arrays of the backend descriptor, each the list of the elements
  stored from the pointer on. \<open>None\<close> is the null pointer (the backend is unconstrained
  on that axis).
\<close>

record AVCodec =
  sample_fmts :: "GrooveSampleFormat list option"
  supported_samplerates :: "int list option"
  channel_layouts :: "64 word list option"

text \<open>
  The functions of libavutil that the negotiation calls are parameters of the model:
  the width of a sample in bytes, the packed counterpart of a format, and the number of
  channels of a layout, each returning a C \<open>int\<close> or an enumerator.
\<close>

record libavutil =
  av_get_bytes_per_sample :: "GrooveSampleFormat \<Rightarrow> int"
  av_get_packed_sample_fmt :: "GrooveSampleFormat \<Rightarrow> GrooveSampleFormat"
  av_get_channel_layout_nb_channels :: "64 word \<Rightarrow> int"

subsection \<open>Sample format\<close>

text \<open>\<open>codec_supports_fmt\<close> walks the array up to the terminator \<open>GROOVE_SAMPLE_FMT_NONE\<close>.\<close>

fun supports_scan :: "GrooveSampleFormat \<Rightarrow> GrooveSampleFormat list \<Rightarrow> error + bool" where
  "supports_scan fmt [] = Inl Out_of_bounds_read"
| "supports_scan fmt (p # ps) =
     (if p = GROOVE_SAMPLE_FMT_NONE then Inr False
      else if p = fmt then Inr True
      else supports_scan fmt ps)"

definition codec_supports_fmt :: "AVCodec \<Rightarrow> GrooveSampleFormat \<Rightarrow> error + bool" where
  "codec_supports_fmt codec fmt =
     (case sample_fmts codec of
        None \<Rightarrow> Inl Null_dereference
      | Some a \<Rightarrow> supports_scan fmt a)"

text \<open>The code after the loop: the packed counterpart of \<open>best\<close> when the codec lists it.\<close>

definition prefer_interleaved ::
  "libavutil \<Rightarrow> AVCodec \<Rightarrow> GrooveSampleFormat \<Rightarrow> error + GrooveSampleFormat" where
  "prefer_interleaved lib codec best =
     (let packed_best = av_get_packed_sample_fmt lib best in
      case codec_supports_fmt codec packed_best of
        Inl e \<Rightarrow> Inl e
      | Inr s \<Rightarrow> Inr (if s then packed_best else best))"

text \<open>
  The loop of \<open>closest_supported_sample_fmt\<close>, with the loop state \<open>best\<close> and its width \<open>best_sz\<close>.
  Meeting the target returns it at once; meeting the terminator leaves the loop.
\<close>

fun sample_fmt_scan ::
  "libavutil \<Rightarrow> AVCodec \<Rightarrow> GrooveSampleFormat \<Rightarrow> int \<Rightarrow> GrooveSampleFormat \<Rightarrow> int \<Rightarrow>
   GrooveSampleFormat list \<Rightarrow> error + GrooveSampleFormat" where
  "sample_fmt_scan lib codec target target_sz best best_sz [] = Inl Out_of_bounds_read"
| "sample_fmt_scan lib codec target target_sz best best_sz (p # ps) =
     (if p = GROOVE_SAMPLE_FMT_NONE then prefer_interleaved lib codec best
      else if p = target then Inr target
      else
        (let sz = av_get_bytes_per_sample lib p in
         if best_sz < target_sz \<and> sz > best_sz
         then sample_fmt_scan lib codec target target_sz p sz ps
         else if sz \<ge> target_sz then
           (case abs_diff target_sz sz of
              Inl e \<Rightarrow> Inl e
            | Inr d \<Rightarrow>
               (case abs_diff target_sz best_sz of
                  Inl e \<Rightarrow> Inl e
                | Inr d' \<Rightarrow>
                   if d < d' then sample_fmt_scan lib codec target target_sz p sz ps
                   else sample_fmt_scan lib codec target target_sz best best_sz ps))
         else sample_fmt_scan lib codec target target_sz best best_sz ps))"

definition closest_supported_sample_fmt ::
  "libavutil \<Rightarrow> AVCodec \<Rightarrow> GrooveSampleFormat \<Rightarrow> error + GrooveSampleFormat" where
  "closest_supported_sample_fmt lib codec target =
     (case sample_fmts codec of
        None \<Rightarrow> Inr target
      | Some [] \<Rightarrow> Inl Out_of_bounds_read
      | Some (p # ps) \<Rightarrow>
          sample_fmt_scan lib codec target (av_get_bytes_per_sample lib target)
            p (av_get_bytes_per_sample lib p) (p # ps))"

subsection \<open>Sample rate\<close>

text \<open>
  The array of supported rates is the list of the \<open>int\<close>s stored from the pointer on; the
  loop stops at the first 0. The list running out before a 0 is met is a read past the
  end of the array. The loop state is \<open>best\<close>; the list is what \<open>p\<close> still has in front.
\<close>

fun sample_rate_scan :: "int \<Rightarrow> int \<Rightarrow> int list \<Rightarrow> error + int" where
  "sample_rate_scan target best [] = Inl Out_of_bounds_read"
| "sample_rate_scan target best (p # ps) =
     (if p = 0 then Inr best
      else if p = target then Inr target
      else if best < target \<and> p > best then sample_rate_scan target p ps
      else if p \<ge> target then
        (case abs_diff target p of
           Inl e \<Rightarrow> Inl e
         | Inr d \<Rightarrow>
            (case abs_diff target best of
               Inl e \<Rightarrow> Inl e
             | Inr d' \<Rightarrow> sample_rate_scan target (if d < d' then p else best) ps))
      else sample_rate_scan target best ps)"

definition closest_supported_sample_rate :: "AVCodec \<Rightarrow> int \<Rightarrow> error + int" where
  "closest_supported_sample_rate codec target =
     (case supported_samplerates codec of
        None \<Rightarrow> Inr target
      | Some [] \<Rightarrow> Inl Out_of_bounds_read
      | Some (p # ps) \<Rightarrow> sample_rate_scan target p (p # ps))"

subsection \<open>Channel layout\<close>

text \<open>A layout is a 64-bit mask; the array of supported layouts ends at the first 0.\<close>

fun channel_layout_scan ::
  "libavutil \<Rightarrow> 64 word \<Rightarrow> int \<Rightarrow> 64 word \<Rightarrow> int \<Rightarrow> 64 word list \<Rightarrow> error + 64 word" where
  "channel_layout_scan lib target target_count best best_count [] = Inl Out_of_bounds_read"
| "channel_layout_scan lib target target_count best best_count (p # ps) =
     (if p = 0 then Inr best
      else if p = target then Inr target
      else
        (let count = av_get_channel_layout_nb_channels lib p in
         if best_count < target_count \<and> count > best_count
         then channel_layout_scan lib target target_count p count ps
         else if count \<ge> target_count then
           (case abs_diff target_count count of
              Inl e \<Rightarrow> Inl e
            | Inr d \<Rightarrow>
               (case abs_diff target_count best_count of
                  Inl e \<Rightarrow> Inl e
                | Inr d' \<Rightarrow>
                   if d < d' then channel_layout_scan lib target target_count p count ps
                   else channel_layout_scan lib target target_count best best_count ps))
         else channel_layout_scan lib target target_count best best_count ps))"

definition closest_supported_channel_layout ::
  "libavutil \<Rightarrow> AVCodec \<Rightarrow> 64 word \<Rightarrow> error + 64 word" where
  "closest_supported_channel_layout lib codec target =
     (case channel_layouts codec of
        None \<Rightarrow> Inr target
      | Some [] \<Rightarrow> Inl Out_of_bounds_read
      | Some (p # ps) \<Rightarrow>
          channel_layout_scan lib target (av_get_channel_layout_nb_channels lib target)
            p (av_get_channel_layout_nb_channels lib p) (p # ps))"

subsection \<open>The library functions at hand\<close>

text \<open>
  One instance of the library parameters, used where a property is evaluated on concrete
  input: the widths and packed counterparts of the ten sample formats as libavutil
  documents them, and the number of set bits of a layout mask.
\<close>

fun bytes_per_sample :: "GrooveSampleFormat \<Rightarrow> int" where
  "bytes_per_sample GROOVE_SAMPLE_FMT_NONE = 0"
| "bytes_per_sample GROOVE_SAMPLE_FMT_U8 = 1"
| "bytes_per_sample GROOVE_SAMPLE_FMT_S16 = 2"
| "bytes_per_sample GROOVE_SAMPLE_FMT_S32 = 4"
| "bytes_per_sample GROOVE_SAMPLE_FMT_FLT = 4"
| "bytes_per_sample GROOVE_SAMPLE_FMT_DBL = 8"
| "bytes_per_sample GROOVE_SAMPLE_FMT_U8P = 1"
| "bytes_per_sample GROOVE_SAMPLE_FMT_S16P = 2"
| "bytes_per_sample GROOVE_SAMPLE_FMT_S32P = 4"
| "bytes_per_sample GROOVE_SAMPLE_FMT_FLTP = 4"
| "bytes_per_sample GROOVE_SAMPLE_FMT_DBLP = 8"

fun packed_sample_fmt :: "GrooveSampleFormat \<Rightarrow> GrooveSampleFormat" where
  "packed_sample_fmt GROOVE_SAMPLE_FMT_U8P = GROOVE_SAMPLE_FMT_U8"
| "packed_sample_fmt GROOVE_SAMPLE_FMT_S16P = GROOVE_SAMPLE_FMT_S16"
| "packed_sample_fmt GROOVE_SAMPLE_FMT_S32P = GROOVE_SAMPLE_FMT_S32"
| "packed_sample_fmt GROOVE_SAMPLE_FMT_FLTP = GROOVE_SAMPLE_FMT_FLT"
| "packed_sample_fmt GROOVE_SAMPLE_FMT_DBLP = GROOVE_SAMPLE_FMT_DBL"
| "packed_sample_fmt f = f"

definition nb_channels :: "64 word \<Rightarrow> int" where
  "nb_channels l = (\<Sum>i\<leftarrow>[0..<64]. if bit l i then 1 else 0)"

definition libav :: libavutil where
  "libav = \<lparr>av_get_bytes_per_sample = bytes_per_sample,
            av_get_packed_sample_fmt = packed_sample_fmt,
            av_get_channel_layout_nb_channels = nb_channels\<rparr>"

section \<open>Buffers, queue and session state\<close>

text \<open>
  A pointer is an \<open>option\<close>: \<open>None\<close> is the null pointer. A playlist item and a playlist
  are known by their address only. The headers that declare the structures (\<open>groove.h\<close>,
  \<open>buffer.h\<close>, \<open>queue.h\<close>) are not among the sources: a structure has the fields the source
  reads or writes, under the names the source uses.
\<close>

type_synonym byte = "8 word"
type_synonym playlist_item = nat
type_synonym playlist = nat

record GrooveAudioFormat =
  sample_rate :: int
  channel_layout :: "64 word"
  sample_fmt :: GrooveSampleFormat

text \<open>
  The fields of \<open>GrooveBuffer\<close> and \<open>GrooveBufferPrivate\<close> that the encoder reads or writes.
  \<open>data_alloc\<close> is the number of bytes allocated for the payload, \<open>data\<close> the bytes stored
  there, \<open>size_f\<close> the field \<open>size\<close>.
\<close>

record GrooveBuffer =
  item :: "playlist_item option"
  pos :: real
  format :: GrooveAudioFormat
  is_packet :: bool
  data_alloc :: int
  data :: "byte list"
  size_f :: int

datatype log_level = AV_LOG_ERROR | AV_LOG_INFO

text \<open>
  What lies outside the encoder's own structures: the handles that are allocated and not
  yet released, the next handle the allocator hands out, the buffers whose reference the
  encoder has dropped (in order), and the lines written with \<open>av_log\<close>.
\<close>

record world =
  live :: "handle set"
  next_handle :: handle
  released :: "GrooveBuffer list"
  log_lines :: "(log_level \<times> string) list"

definition av_log :: "world \<Rightarrow> log_level \<Rightarrow> string \<Rightarrow> world" where
  "av_log w level msg = w\<lparr>log_lines := log_lines w @ [(level, msg)]\<rparr>"

definition allocate :: "world \<Rightarrow> handle \<times> world" where
  "allocate w =
     (next_handle w, w\<lparr>live := insert (next_handle w) (live w), next_handle := Suc (next_handle w)\<rparr>)"

definition release :: "world \<Rightarrow> handle \<Rightarrow> error + world" where
  "release w h = (if h \<in> live w then Inr (w\<lparr>live := live w - {h}\<rparr>) else Inl (Double_free h))"

definition and_then :: "error + 'a \<Rightarrow> ('a \<Rightarrow> error + 'b) \<Rightarrow> error + 'b" where
  "and_then r f = (case r of Inl e \<Rightarrow> Inl e | Inr x \<Rightarrow> f x)"

subsection \<open>The queue\<close>

text \<open>
  Modelled from the spec: \<open>queue.c\<close> is not among the sources. The spec (4.1) gives the
  contract: put appends and never fails; get removes the head, returns at once with no
  item when the queue is empty and the call is non-blocking, and after abort returns the
  terminal result; a blocking get on an empty queue waits (here: \<open>None\<close>, the call has not
  returned); flush removes every pending item and passes each to cleanup; purge removes
  the items that match the purge predicate, passes each to cleanup and keeps the order of
  the rest; abort sets the abort flag; reset flushes and clears the flag.
  The return value of get is 1 when an item was removed (the source tests \<open>== 1\<close>); the
  out-parameter is written only then.
\<close>

record 'a GrooveQueue =
  items :: "'a list"
  abort_request :: bool

definition groove_queue_put :: "'a GrooveQueue \<Rightarrow> 'a \<Rightarrow> 'a GrooveQueue" where
  "groove_queue_put q x = q\<lparr>items := items q @ [x]\<rparr>"

definition groove_queue_get ::
  "'a GrooveQueue \<Rightarrow> 'a \<Rightarrow> bool \<Rightarrow> (int \<times> 'a \<times> 'a GrooveQueue) option" where
  "groove_queue_get q obj block =
     (if abort_request q then Some (- 1, obj, q)
      else case items q of
        x # xs \<Rightarrow> Some (1, x, q\<lparr>items := xs\<rparr>)
      | [] \<Rightarrow> if block then None else Some (0, obj, q))"

fun cleanup_all :: "('w \<Rightarrow> 'a \<Rightarrow> error + 'w) \<Rightarrow> 'w \<Rightarrow> 'a list \<Rightarrow> error + 'w" where
  "cleanup_all cleanup w [] = Inr w"
| "cleanup_all cleanup w (x # xs) =
     (case cleanup w x of Inl e \<Rightarrow> Inl e | Inr w' \<Rightarrow> cleanup_all cleanup w' xs)"

definition groove_queue_flush ::
  "('w \<Rightarrow> 'a \<Rightarrow> error + 'w) \<Rightarrow> 'w \<Rightarrow> 'a GrooveQueue \<Rightarrow> error + ('w \<times> 'a GrooveQueue)" where
  "groove_queue_flush cleanup w q =
     (case cleanup_all cleanup w (items q) of
        Inl e \<Rightarrow> Inl e
      | Inr w' \<Rightarrow> Inr (w', q\<lparr>items := []\<rparr>))"

fun purge_items ::
  "('a \<Rightarrow> error + bool) \<Rightarrow> ('w \<Rightarrow> 'a \<Rightarrow> error + 'w) \<Rightarrow> 'w \<Rightarrow> 'a list \<Rightarrow> error + ('w \<times> 'a list)" where
  "purge_items purge cleanup w [] = Inr (w, [])"
| "purge_items purge cleanup w (x # xs) =
     (case purge x of
        Inl e \<Rightarrow> Inl e
      | Inr True \<Rightarrow>
          (case cleanup w x of
             Inl e \<Rightarrow> Inl e
           | Inr w' \<Rightarrow> purge_items purge cleanup w' xs)
      | Inr False \<Rightarrow>
          (case purge_items purge cleanup w xs of
             Inl e \<Rightarrow> Inl e
           | Inr (w', ys) \<Rightarrow> Inr (w', x # ys)))"

definition groove_queue_purge ::
  "('a \<Rightarrow> error + bool) \<Rightarrow> ('w \<Rightarrow> 'a \<Rightarrow> error + 'w) \<Rightarrow> 'w \<Rightarrow> 'a GrooveQueue \<Rightarrow>
   error + ('w \<times> 'a GrooveQueue)" where
  "groove_queue_purge purge cleanup w q =
     (case purge_items purge cleanup w (items q) of
        Inl e \<Rightarrow> Inl e
      | Inr (w', ys) \<Rightarrow> Inr (w', q\<lparr>items := ys\<rparr>))"

definition groove_queue_abort :: "'a GrooveQueue \<Rightarrow> 'a GrooveQueue" where
  "groove_queue_abort q = q\<lparr>abort_request := True\<rparr>"

definition groove_queue_reset ::
  "('w \<Rightarrow> 'a \<Rightarrow> error + 'w) \<Rightarrow> 'w \<Rightarrow> 'a GrooveQueue \<Rightarrow> error + ('w \<times> 'a GrooveQueue)" where
  "groove_queue_reset cleanup w q =
     (case groove_queue_flush cleanup w q of
        Inl e \<Rightarrow> Inl e
      | Inr (w', q') \<Rightarrow> Inr (w', q'\<lparr>abort_request := False\<rparr>))"

subsection \<open>The sink and the encoder\<close>

text \<open>
  Modelled from the spec: \<open>sink.c\<close> is not among the sources. Of a sink the encoder uses
  the format it asks for and the registration with a playlist (the spec's attach
  registers with the upstream sink, detach unregisters); \<open>attached_to\<close> is the playlist
  the sink is registered with.
\<close>

record GrooveSink =
  audio_format :: GrooveAudioFormat
  attached_to :: "playlist option"

definition groove_sink_detach :: "GrooveSink \<Rightarrow> GrooveSink" where
  "groove_sink_detach s = s\<lparr>attached_to := None\<rparr>"

text \<open>
  \<open>GrooveEncoderPrivate\<close>, without the packet scratch space, the lock and the two buffers
  of the byte-output context, which no property below depends on. The library objects
  are handles.
\<close>

record GrooveEncoderPrivate =
  audioq :: "GrooveBuffer option GrooveQueue"
  sink :: GrooveSink
  codec_ctx :: "handle option"
  fmt_ctx :: "handle option"
  stream :: "handle option"
  purge_item :: "playlist_item option"
  encode_head :: "playlist_item option"
  encode_pos :: real
  encode_format :: GrooveAudioFormat
  thread_id :: "handle option"
  sent_header :: bool

record GrooveEncoder =
  internals :: GrooveEncoderPrivate
  playlist_of :: "playlist option"
  target_audio_format :: GrooveAudioFormat
  actual_audio_format :: GrooveAudioFormat
  bit_rate :: int

datatype buffer_result = GROOVE_BUFFER_NO | GROOVE_BUFFER_YES | GROOVE_BUFFER_END

definition end_of_q_sentinel :: "GrooveBuffer option" where
  "end_of_q_sentinel = None"

text \<open>
  Modelled from the spec: \<open>buffer.c\<close> is not among the sources. Dropping a reference is
  recorded in \<open>released\<close>; the buffer is reached through the pointer, so the null pointer
  cannot be unreferenced.
\<close>

definition groove_buffer_unref :: "world \<Rightarrow> GrooveBuffer option \<Rightarrow> error + world" where
  "groove_buffer_unref w buffer =
     (case buffer of
        None \<Rightarrow> Inl Null_dereference
      | Some b \<Rightarrow> Inr (w\<lparr>released := released w @ [b]\<rparr>))"

definition audioq_purge :: "GrooveEncoderPrivate \<Rightarrow> GrooveBuffer option \<Rightarrow> error + bool" where
  "audioq_purge e obj =
     (case obj of
        None \<Rightarrow> Inl Null_dereference
      | Some buffer \<Rightarrow> Inr (item buffer = purge_item e))"

definition audioq_cleanup :: "world \<Rightarrow> GrooveBuffer option \<Rightarrow> error + world" where
  "audioq_cleanup w obj = groove_buffer_unref w obj"

definition sink_purge ::
  "world \<Rightarrow> GrooveEncoder \<Rightarrow> playlist_item option \<Rightarrow> error + (world \<times> GrooveEncoder)" where
  "sink_purge w encoder it =
     (let e = (internals encoder)\<lparr>purge_item := it\<rparr> in
      case groove_queue_purge (audioq_purge e) audioq_cleanup w (audioq e) of
        Inl err \<Rightarrow> Inl err
      | Inr (w', q) \<Rightarrow>
          (let e' = e\<lparr>audioq := q, purge_item := None\<rparr>;
               e'' = (if encode_head e' = it
                      then e'\<lparr>encode_head := None, encode_pos := - 1\<rparr>
                      else e')
           in Inr (w', encoder\<lparr>internals := e''\<rparr>)))"

definition groove_encoder_get_buffer ::
  "GrooveEncoder \<Rightarrow> GrooveBuffer option \<Rightarrow> bool \<Rightarrow>
   (buffer_result \<times> GrooveBuffer option \<times> GrooveEncoder) option" where
  "groove_encoder_get_buffer encoder buffer block =
     (let e = internals encoder in
      case groove_queue_get (audioq e) buffer block of
        None \<Rightarrow> None
      | Some (ret, buffer', q) \<Rightarrow>
          (let encoder' = encoder\<lparr>internals := e\<lparr>audioq := q\<rparr>\<rparr> in
           if ret = 1 then
             (if buffer' = end_of_q_sentinel
              then Some (GROOVE_BUFFER_END, None, encoder')
              else Some (GROOVE_BUFFER_YES, buffer', encoder'))
           else Some (GROOVE_BUFFER_NO, None, encoder')))"

subsection \<open>Detach\<close>

text \<open>
  The library calls of detach, on handles: \<open>SDL_WaitThread\<close> joins the worker and
  releases the thread object, and does nothing for the null pointer; \<open>avcodec_close\<close>
  needs a live context; \<open>av_free\<close> and \<open>avformat_free_context\<close> release their argument.
  The stream belongs to the format context and is released with it.
\<close>

definition SDL_WaitThread :: "world \<Rightarrow> handle option \<Rightarrow> error + world" where
  "SDL_WaitThread w t = (case t of None \<Rightarrow> Inr w | Some h \<Rightarrow> release w h)"

definition avcodec_close :: "world \<Rightarrow> handle \<Rightarrow> error + world" where
  "avcodec_close w c = (if c \<in> live w then Inr w else Inl (Use_after_free c))"

definition av_free :: "world \<Rightarrow> handle \<Rightarrow> error + world" where
  "av_free w h = release w h"

definition avformat_free_context :: "world \<Rightarrow> handle \<Rightarrow> error + world" where
  "avformat_free_context w f = release w f"

definition groove_encoder_detach ::
  "world \<Rightarrow> GrooveEncoder \<Rightarrow> error + (int \<times> world \<times> GrooveEncoder)" where
  "groove_encoder_detach w encoder =
     (let e = internals encoder;
          e1 = e\<lparr>sink := groove_sink_detach (sink e)\<rparr>
      in
      and_then (groove_queue_flush audioq_cleanup w (audioq e1)) (\<lambda>(w1, q1).
      let e2 = e1\<lparr>audioq := groove_queue_abort q1\<rparr> in
      and_then (SDL_WaitThread w1 (thread_id e2)) (\<lambda>w2.
      let e3 = e2\<lparr>thread_id := None\<rparr> in
      and_then
        (case codec_ctx e3 of
           None \<Rightarrow> Inr (w2, e3)
         | Some c \<Rightarrow>
             and_then (avcodec_close w2 c) (\<lambda>w'.
             and_then (av_free w' c) (\<lambda>w''.
             Inr (w'', e3\<lparr>codec_ctx := None\<rparr>))))
        (\<lambda>(w3, e4).
      let e5 = (if stream e4 \<noteq> None then e4\<lparr>stream := None\<rparr> else e4) in
      and_then
        (case fmt_ctx e5 of
           None \<Rightarrow> Inr w3
         | Some f \<Rightarrow> avformat_free_context w3 f)
        (\<lambda>w4.
      let e6 = e5\<lparr>encode_head := None, encode_pos := - 1, sent_header := False\<rparr> in
      Inr (0, w4, encoder\<lparr>internals := e6, playlist_of := None\<rparr>))))))"

subsection \<open>Attach\<close>

text \<open>
  What the calls of attach into libav, the sink and SDL return is given from outside.
  The chain \<open>av_guess_format\<close>, \<open>av_guess_codec\<close>, \<open>avcodec_find_encoder\<close> resolves the
  backend; its result is the descriptor found, or the null pointer.
\<close>

record attach_outcomes =
  avformat_alloc_context_ok :: bool
  avcodec_find_encoder_result :: "AVCodec option"
  avformat_new_stream_ok :: bool
  avcodec_alloc_context3_ok :: bool
  avcodec_open2_result :: int
  groove_sink_attach_result :: int
  SDL_CreateThread_ok :: bool

text \<open>\<open>log_audio_fmt\<close> writes one formatted line; its text is not modelled.\<close>

definition log_audio_fmt :: "world \<Rightarrow> GrooveAudioFormat \<Rightarrow> world" where
  "log_audio_fmt w fmt = av_log w AV_LOG_INFO ''encoding audio format''"

text \<open>Every failure branch of attach: detach, log the message, return -1.\<close>

definition attach_failed ::
  "world \<Rightarrow> GrooveEncoder \<Rightarrow> string \<Rightarrow> error + (int \<times> world \<times> GrooveEncoder)" where
  "attach_failed w encoder msg =
     and_then (groove_encoder_detach w encoder) (\<lambda>(ret, w', encoder').
     Inr (- 1, av_log w' AV_LOG_ERROR msg, encoder'))"

definition groove_encoder_attach ::
  "libavutil \<Rightarrow> attach_outcomes \<Rightarrow> world \<Rightarrow> GrooveEncoder \<Rightarrow> playlist option \<Rightarrow>
   error + (int \<times> world \<times> GrooveEncoder)" where
  "groove_encoder_attach lib out w encoder playlist =
     (let enc0 = encoder\<lparr>playlist_of := playlist\<rparr>;
          e = internals enc0
      in
      and_then (groove_queue_reset audioq_cleanup w (audioq e)) (\<lambda>(w0, q).
      let e0 = e\<lparr>audioq := q\<rparr> in
      if \<not> avformat_alloc_context_ok out
      then attach_failed w0 (enc0\<lparr>internals := e0\<lparr>fmt_ctx := None\<rparr>\<rparr>)
             ''unable to allocate format context\<newline>''
      else
        let (f, w1) = allocate w0;
            e1 = e0\<lparr>fmt_ctx := Some f\<rparr>
        in
        case avcodec_find_encoder_result out of
          None \<Rightarrow> attach_failed w1 (enc0\<lparr>internals := e1\<rparr>) ''unable to find encoder\<newline>''
        | Some codec \<Rightarrow>
            if \<not> avformat_new_stream_ok out
            then attach_failed w1 (enc0\<lparr>internals := e1\<lparr>stream := None\<rparr>\<rparr>)
                   ''unable to create output stream\<newline>''
            else
              let e2 = e1\<lparr>stream := Some f\<rparr> in
              and_then (closest_supported_sample_fmt lib codec
                          (sample_fmt (target_audio_format enc0))) (\<lambda>fmt.
              and_then (closest_supported_sample_rate codec
                          (sample_rate (target_audio_format enc0))) (\<lambda>rate.
              and_then (closest_supported_channel_layout lib codec
                          (channel_layout (target_audio_format enc0))) (\<lambda>layout.
              let actual = (actual_audio_format enc0)
                     \<lparr>sample_fmt := fmt, sample_rate := rate, channel_layout := layout\<rparr>;
                  enc1 = enc0\<lparr>actual_audio_format := actual\<rparr>;
                  w2 = log_audio_fmt w1 actual
              in
              if \<not> avcodec_alloc_context3_ok out
              then attach_failed w2 (enc1\<lparr>internals := e2\<lparr>codec_ctx := None\<rparr>\<rparr>)
                     ''unable to allocate context\<newline>''
              else
                let (c, w3) = allocate w2;
                    e3 = e2\<lparr>codec_ctx := Some c\<rparr>
                in
                if avcodec_open2_result out < 0
                then attach_failed w3 (enc1\<lparr>internals := e3\<rparr>) ''unable to open codec\<newline>''
                else
                  let e4 = e3\<lparr>sink := (sink e3)\<lparr>audio_format := actual\<rparr>\<rparr> in
                  if groove_sink_attach_result out < 0
                  then attach_failed w3 (enc1\<lparr>internals := e4\<rparr>) ''unable to attach sink\<newline>''
                  else
                    let e5 = e4\<lparr>sink := (sink e4)\<lparr>attached_to := playlist\<rparr>\<rparr> in
                    if \<not> SDL_CreateThread_ok out
                    then attach_failed w3 (enc1\<lparr>internals := e5\<lparr>thread_id := None\<rparr>\<rparr>)
                           ''unable to create encoder thread\<newline>''
                    else
                      let (t, w4) = allocate w3 in
                      Inr (0, w4, enc1\<lparr>internals := e5\<lparr>thread_id := Some t\<rparr>\<rparr>))))))"

subsection \<open>Create\<close>

text \<open>
  The structure \<open>groove_encoder_create\<close> returns when each of its allocations succeeds:
  zero-filled, with an empty queue, a fresh sink and the default target format
  (44100 Hz, signed 16 bit, stereo). The enumerator with value 0 is \<open>GROOVE_SAMPLE_FMT_U8\<close>.
\<close>

definition zero_format :: GrooveAudioFormat where
  "zero_format = \<lparr>sample_rate = 0, channel_layout = 0, sample_fmt = GROOVE_SAMPLE_FMT_U8\<rparr>"

definition GROOVE_CH_LAYOUT_STEREO :: "64 word" where
  "GROOVE_CH_LAYOUT_STEREO = 3"

definition groove_encoder_create :: GrooveEncoder where
  "groove_encoder_create =
     \<lparr>internals =
        \<lparr>audioq = \<lparr>items = [], abort_request = False\<rparr>,
         sink = \<lparr>audio_format = zero_format, attached_to = None\<rparr>,
         codec_ctx = None, fmt_ctx = None, stream = None,
         purge_item = None, encode_head = None, encode_pos = 0,
         encode_format = zero_format, thread_id = None, sent_header = False\<rparr>,
      playlist_of = None,
      target_audio_format =
        \<lparr>sample_rate = 44100, channel_layout = GROOVE_CH_LAYOUT_STEREO,
         sample_fmt = GROOVE_SAMPLE_FMT_S16\<rparr>,
      actual_audio_format = zero_format,
      bit_rate = 0\<rparr>"

section \<open>The byte-output callback and the worker\<close>

subsection \<open>The callback\<close>

text \<open>
  \<open>encoder_write_packet\<close> receives \<open>buf\<close> (the bytes at the pointer) and \<open>buf_size\<close>. Whether
  each of its four allocations succeeds is given from outside. The payload buffer is
  allocated with \<open>av_malloc(sizeof(buf_size))\<close>: the size of an \<open>int\<close>, 4 bytes on the
  platforms the library builds for. \<open>memcpy\<close> then copies \<open>buf_size\<close> bytes: it reads past
  \<open>buf\<close> when \<open>buf\<close> is shorter, and writes past the allocation when \<open>buf_size\<close> exceeds
  the allocated size (a negative \<open>buf_size\<close> converts to a huge unsigned count).
  When the payload allocation fails, the source frees \<open>b\<close> and then reads \<open>b->mutex\<close>.
\<close>

record alloc_outcomes =
  buffer_ok :: bool
  private_ok :: bool
  mutex_ok :: bool
  data_ok :: bool

definition sizeof_int :: int where
  "sizeof_int = 4"

definition encoder_write_packet ::
  "alloc_outcomes \<Rightarrow> world \<Rightarrow> GrooveEncoder \<Rightarrow> byte list \<Rightarrow> int \<Rightarrow>
   error + (int \<times> world \<times> GrooveEncoder)" where
  "encoder_write_packet al w encoder buf buf_size =
     (let e = internals encoder in
      if \<not> (buffer_ok al \<and> private_ok al)
      then Inr (- 1, av_log w AV_LOG_ERROR ''unable to allocate buffer\<newline>'', encoder)
      else if \<not> mutex_ok al
      then Inr (- 1, av_log w AV_LOG_ERROR ''unable to create mutex\<newline>'', encoder)
      else if \<not> data_ok al
      then Inl Read_after_free
      else
        let allocated = sizeof_int in
        if int (length buf) < buf_size then Inl Out_of_bounds_read
        else if buf_size < 0 \<or> allocated < buf_size then Inl Heap_overflow
        else
          let buffer =
                \<lparr>item = encode_head e, pos = encode_pos e, format = encode_format e,
                 is_packet = True, data_alloc = allocated,
                 data = take (nat buf_size) buf, size_f = buf_size\<rparr>
          in Inr (0, w, encoder\<lparr>internals := e\<lparr>audioq := groove_queue_put (audioq e) (Some buffer)\<rparr>\<rparr>))"

subsection \<open>Calls into the codec and the container writer\<close>

text \<open>
  What the worker's calls into libav do is given from outside as a script: the results
  of the successive calls, in the order the worker makes them. A result holds the return
  value, the flag \<open>got_packet\<close> (read after \<open>avcodec_encode_audio2\<close> only) and the
  invocations of the output callback the call makes before it returns, each with its
  allocation outcomes, bytes and length. A call for which the script holds no result
  does not return (\<open>None\<close>).
\<close>

record call_result =
  ret :: int
  got_packet :: bool
  callbacks :: "(alloc_outcomes \<times> byte list \<times> int) list"

fun run_callbacks ::
  "(alloc_outcomes \<times> byte list \<times> int) list \<Rightarrow> world \<Rightarrow> GrooveEncoder \<Rightarrow>
   error + (world \<times> GrooveEncoder)" where
  "run_callbacks [] w encoder = Inr (w, encoder)"
| "run_callbacks ((al, buf, buf_size) # cs) w encoder =
     (case encoder_write_packet al w encoder buf buf_size of
        Inl err \<Rightarrow> Inl err
      | Inr (r, w', encoder') \<Rightarrow> run_callbacks cs w' encoder')"

definition library_call ::
  "call_result list \<Rightarrow> world \<Rightarrow> GrooveEncoder \<Rightarrow>
   (error + (call_result \<times> call_result list \<times> world \<times> GrooveEncoder)) option" where
  "library_call script w encoder =
     (case script of
        [] \<Rightarrow> None
      | r # script' \<Rightarrow>
          (case run_callbacks (callbacks r) w encoder of
             Inl err \<Rightarrow> Some (Inl err)
           | Inr (w', encoder') \<Rightarrow> Some (Inr (r, script', w', encoder'))))"

definition avformat_write_header where
  "avformat_write_header = library_call"

definition avcodec_encode_audio2 where
  "avcodec_encode_audio2 = library_call"

definition av_write_frame where
  "av_write_frame = library_call"

definition av_write_trailer where
  "av_write_trailer = library_call"

subsection \<open>The worker\<close>

definition encode_buffer ::
  "call_result list \<Rightarrow> world \<Rightarrow> GrooveEncoder \<Rightarrow> GrooveBuffer option \<Rightarrow>
   (error + (int \<times> call_result list \<times> world \<times> GrooveEncoder)) option" where
  "encode_buffer script w encoder buffer =
     (let e = internals encoder;
          e' = (case buffer of
                  None \<Rightarrow> e
                | Some b \<Rightarrow> e\<lparr>encode_head := item b, encode_pos := pos b, encode_format := format b\<rparr>)
      in
      case avcodec_encode_audio2 script w (encoder\<lparr>internals := e'\<rparr>) of
        None \<Rightarrow> None
      | Some (Inl err) \<Rightarrow> Some (Inl err)
      | Some (Inr (r, script1, w1, enc1)) \<Rightarrow>
          if ret r < 0
          then Some (Inr (- 1, script1, av_log w1 AV_LOG_ERROR ''error encoding audio frame\<newline>'', enc1))
          else if \<not> got_packet r then Some (Inr (- 1, script1, w1, enc1))
          else
            (case av_write_frame script1 w1 enc1 of
               None \<Rightarrow> None
             | Some (Inl err) \<Rightarrow> Some (Inl err)
             | Some (Inr (r', script2, w2, enc2)) \<Rightarrow> Some (Inr (0, script2, w2, enc2))))"

text \<open>The two loops of the end-of-stream branch: each turn consumes a result of the script.\<close>

function drain_encoder ::
  "call_result list \<Rightarrow> world \<Rightarrow> GrooveEncoder \<Rightarrow>
   (error + (call_result list \<times> world \<times> GrooveEncoder)) option" where
  "drain_encoder script w encoder =
     (case encode_buffer script w encoder None of
        None \<Rightarrow> None
      | Some (Inl err) \<Rightarrow> Some (Inl err)
      | Some (Inr (r, script', w', encoder')) \<Rightarrow>
          if r \<ge> 0 then drain_encoder script' w' encoder'
          else Some (Inr (script', w', encoder')))"
  by pat_completeness auto

lemma library_call_shorter:
  "library_call script w encoder = Some (Inr (r, script', w', encoder')) \<Longrightarrow>
   length script' < length script"
  by (auto simp: library_call_def split: list.splits sum.splits)

lemma encode_buffer_shorter:
  "encode_buffer script w encoder buffer = Some (Inr (r, script', w', encoder')) \<Longrightarrow>
   length script' < length script"
  by (auto simp: encode_buffer_def avcodec_encode_audio2_def av_write_frame_def Let_def
        split: option.splits sum.splits if_splits dest!: library_call_shorter)

termination drain_encoder
  by (relation "measure (\<lambda>(script, w, encoder). length script)")
     (auto dest: encode_buffer_shorter)

function flush_writer ::
  "call_result list \<Rightarrow> world \<Rightarrow> GrooveEncoder \<Rightarrow>
   (error + (call_result list \<times> world \<times> GrooveEncoder)) option" where
  "flush_writer script w encoder =
     (case av_write_frame script w encoder of
        None \<Rightarrow> None
      | Some (Inl err) \<Rightarrow> Some (Inl err)
      | Some (Inr (r, script', w', encoder')) \<Rightarrow>
          if ret r = 0 then flush_writer script' w' encoder'
          else Some (Inr (script', w', encoder')))"
  by pat_completeness auto

termination flush_writer
  by (relation "measure (\<lambda>(script, w, encoder). length script)")
     (auto simp: av_write_frame_def dest: library_call_shorter)

text \<open>The head of the loop body: the header is written when none has been sent.\<close>

definition write_header_if_needed ::
  "call_result list \<Rightarrow> world \<Rightarrow> GrooveEncoder \<Rightarrow>
   (error + (call_result list \<times> world \<times> GrooveEncoder)) option" where
  "write_header_if_needed script w encoder =
     (if \<not> sent_header (internals encoder) then
        (let w0 = av_log w AV_LOG_INFO ''encoder: writing header\<newline>'' in
         case avformat_write_header script w0 encoder of
           None \<Rightarrow> None
         | Some (Inl err) \<Rightarrow> Some (Inl err)
         | Some (Inr (r, script', w', encoder')) \<Rightarrow>
             (let w'' = (if ret r < 0 then av_log w' AV_LOG_ERROR ''could not write header\<newline>'' else w')
              in Some (Inr (script', w'',
                   encoder'\<lparr>internals := (internals encoder')\<lparr>sent_header := True\<rparr>\<rparr>))))
      else Some (Inr (script, w, encoder)))"

text \<open>
  The end-of-stream branch after the header: drain the codec, flush the writer, enqueue
  the sentinel, clear the encode head, then write the trailer.
\<close>

definition end_of_stream ::
  "call_result list \<Rightarrow> world \<Rightarrow> GrooveEncoder \<Rightarrow>
   (error + (call_result list \<times> world \<times> GrooveEncoder)) option" where
  "end_of_stream script w encoder =
     (case drain_encoder script w encoder of
        None \<Rightarrow> None
      | Some (Inl err) \<Rightarrow> Some (Inl err)
      | Some (Inr (script1, w1, enc1)) \<Rightarrow>
          (case flush_writer script1 w1 enc1 of
             None \<Rightarrow> None
           | Some (Inl err) \<Rightarrow> Some (Inl err)
           | Some (Inr (script2, w2, enc2)) \<Rightarrow>
               (let e = internals enc2;
                    e' = e\<lparr>audioq := groove_queue_put (audioq e) end_of_q_sentinel,
                           encode_head := None, encode_pos := - 1, sent_header := False\<rparr>;
                    w3 = av_log w2 AV_LOG_INFO ''encoder: writing trailer\<newline>''
                in
                case av_write_trailer script2 w3 (enc2\<lparr>internals := e'\<rparr>) of
                  None \<Rightarrow> None
                | Some (Inl err) \<Rightarrow> Some (Inl err)
                | Some (Inr (r, script3, w4, enc3)) \<Rightarrow>
                    Some (Inr (script3,
                               (if ret r < 0 then av_log w4 AV_LOG_ERROR ''could not write trailer\<newline>''
                                else w4),
                               enc3)))))"

text \<open>
  Modelled from the spec: \<open>groove_sink_get_buffer\<close> (\<open>sink.c\<close>) is not among the sources.
  The spec gives its three outcomes (data, end, no more data); the successive results of
  the worker's blocking calls, each with the pointer it stores, are given from outside.
  When they run out the call does not return.
  The loop of \<open>encode_thread\<close> takes one of them per turn.
\<close>

fun encode_thread ::
  "call_result list \<Rightarrow> (buffer_result \<times> GrooveBuffer option) list \<Rightarrow> world \<Rightarrow> GrooveEncoder \<Rightarrow>
   (error + (int \<times> world \<times> GrooveEncoder)) option" where
  "encode_thread script [] w encoder =
     (case write_header_if_needed script w encoder of
        None \<Rightarrow> None
      | Some (Inl err) \<Rightarrow> Some (Inl err)
      | Some (Inr (script1, w1, enc1)) \<Rightarrow> None)"
| "encode_thread script ((result, buffer) # events) w encoder =
     (case write_header_if_needed script w encoder of
        None \<Rightarrow> None
      | Some (Inl err) \<Rightarrow> Some (Inl err)
      | Some (Inr (script1, w1, enc1)) \<Rightarrow>
          if result = GROOVE_BUFFER_END then
            (case end_of_stream script1 w1 enc1 of
               None \<Rightarrow> None
             | Some (Inl err) \<Rightarrow> Some (Inl err)
             | Some (Inr (script2, w2, enc2)) \<Rightarrow> encode_thread script2 events w2 enc2)
          else if result \<noteq> GROOVE_BUFFER_YES then Some (Inr (0, w1, enc1))
          else
            (case encode_buffer script1 w1 enc1 buffer of
               None \<Rightarrow> None
             | Some (Inl err) \<Rightarrow> Some (Inl err)
             | Some (Inr (r, script2, w2, enc2)) \<Rightarrow>
                 (case groove_buffer_unref w2 buffer of
                    Inl err \<Rightarrow> Some (Inl err)
                  | Inr w3 \<Rightarrow> encode_thread script2 events w3 enc2)))"

declare drain_encoder.simps [simp del]
declare flush_writer.simps [simp del]

section \<open>Notions used to state the properties\<close>

text \<open>
  \<open>preferred t K k\<close>: among the keys \<open>K\<close>, \<open>k\<close> is the least one that reaches \<open>t\<close>, or the
  greatest one when none does.
\<close>

definition preferred :: "int \<Rightarrow> int set \<Rightarrow> int \<Rightarrow> bool" where
  "preferred t K k \<longleftrightarrow>
     k \<in> K \<and>
     (if \<exists>x\<in>K. t \<le> x then t \<le> k \<and> (\<forall>x\<in>K. t \<le> x \<longrightarrow> k \<le> x) else (\<forall>x\<in>K. x \<le> k))"

text \<open>
  The loops replace \<open>best\<close> by the element \<open>k\<close> in front exactly when \<open>takes t bk k\<close> holds
  of the target key, the key of \<open>best\<close> and the key of the element.
\<close>

definition takes :: "int \<Rightarrow> int \<Rightarrow> int \<Rightarrow> bool" where
  "takes t bk k \<longleftrightarrow> (bk < t \<and> bk < k) \<or> (t \<le> k \<and> k < bk)"

text \<open>A backend descriptor that constrains no axis, and outcomes with no failing step.\<close>

definition unconstrained :: AVCodec where
  "unconstrained = \<lparr>sample_fmts = None, supported_samplerates = None, channel_layouts = None\<rparr>"

definition all_succeed :: attach_outcomes where
  "all_succeed =
     \<lparr>avformat_alloc_context_ok = True, avcodec_find_encoder_result = Some unconstrained,
      avformat_new_stream_ok = True, avcodec_alloc_context3_ok = True, avcodec_open2_result = 0,
      groove_sink_attach_result = 0, SDL_CreateThread_ok = True\<rparr>"

definition empty_world :: world where
  "empty_world = \<lparr>live = {}, next_handle = 0, released = [], log_lines = []\<rparr>"

text \<open>
  The seven places where attach can fail, in the order the source checks them, the first
  one that fails under given outcomes, and the message the source logs there.
\<close>

datatype attach_step =
    Alloc_format_context
  | Find_encoder
  | New_stream
  | Alloc_codec_context
  | Open_codec
  | Attach_sink
  | Create_thread

definition first_failure :: "attach_outcomes \<Rightarrow> attach_step option" where
  "first_failure out =
     (if \<not> avformat_alloc_context_ok out then Some Alloc_format_context
      else if avcodec_find_encoder_result out = None then Some Find_encoder
      else if \<not> avformat_new_stream_ok out then Some New_stream
      else if \<not> avcodec_alloc_context3_ok out then Some Alloc_codec_context
      else if avcodec_open2_result out < 0 then Some Open_codec
      else if groove_sink_attach_result out < 0 then Some Attach_sink
      else if \<not> SDL_CreateThread_ok out then Some Create_thread
      else None)"

fun error_message :: "attach_step \<Rightarrow> string" where
  "error_message Alloc_format_context = ''unable to allocate format context\<newline>''"
| "error_message Find_encoder = ''unable to find encoder\<newline>''"
| "error_message New_stream = ''unable to create output stream\<newline>''"
| "error_message Alloc_codec_context = ''unable to allocate context\<newline>''"
| "error_message Open_codec = ''unable to open codec\<newline>''"
| "error_message Attach_sink = ''unable to attach sink\<newline>''"
| "error_message Create_thread = ''unable to create encoder thread\<newline>''"

text \<open>
  The session state of an encoder that is not attached: no playlist, the sink not
  registered, no worker, no codec context, no format context, no stream, the queue empty
  and aborted, no encode head, no header sent.
\<close>

definition detached :: "GrooveEncoder \<Rightarrow> bool" where
  "detached encoder \<longleftrightarrow>
     playlist_of encoder = None \<and>
     attached_to (sink (internals encoder)) = None \<and>
     thread_id (internals encoder) = None \<and>
     codec_ctx (internals encoder) = None \<and>
     fmt_ctx (internals encoder) = None \<and>
     stream (internals encoder) = None \<and>
     items (audioq (internals encoder)) = [] \<and>
     abort_request (audioq (internals encoder)) \<and>
     encode_head (internals encoder) = None \<and>
     encode_pos (internals encoder) = - 1 \<and>
     \<not> sent_header (internals encoder)"

text \<open>An encoded chunk of a given item, and a created encoder with given queue contents.\<close>

definition chunk :: "playlist_item option \<Rightarrow> byte list \<Rightarrow> GrooveBuffer" where
  "chunk it bytes =
     \<lparr>item = it, pos = 0, format = zero_format, is_packet = True,
      data_alloc = int (length bytes), data = bytes, size_f = int (length bytes)\<rparr>"

definition with_queue :: "GrooveBuffer option list \<Rightarrow> GrooveEncoder" where
  "with_queue xs =
     groove_encoder_create
       \<lparr>internals := (internals groove_encoder_create)
          \<lparr>audioq := \<lparr>items = xs, abort_request = False\<rparr>\<rparr>\<rparr>"

text \<open>
  Inputs for the worker. \<open>payload_calls ps\<close> are the invocations of the output callback
  that hand over the payloads \<open>ps\<close>, each with its true length and with every allocation
  succeeding. \<open>packet_chunk\<close> is the chunk the callback builds for a payload under a given
  encode head, position and format; \<open>trailing\<close> is the chunk built once the end-of-stream
  branch has cleared the encode head. \<open>quiet\<close> is a result with no callback invocation,
  \<open>writes\<close> one that hands over payloads.
\<close>

definition all_allocated :: alloc_outcomes where
  "all_allocated = \<lparr>buffer_ok = True, private_ok = True, mutex_ok = True, data_ok = True\<rparr>"

definition payload_calls :: "byte list list \<Rightarrow> (alloc_outcomes \<times> byte list \<times> int) list" where
  "payload_calls ps = map (\<lambda>p. (all_allocated, p, int (length p))) ps"

definition packet_chunk ::
  "playlist_item option \<Rightarrow> real \<Rightarrow> GrooveAudioFormat \<Rightarrow> byte list \<Rightarrow> GrooveBuffer" where
  "packet_chunk it ps fmt payload =
     \<lparr>item = it, pos = ps, format = fmt, is_packet = True,
      data_alloc = sizeof_int, data = payload, size_f = int (length payload)\<rparr>"

definition trailing :: "GrooveAudioFormat \<Rightarrow> byte list \<Rightarrow> GrooveBuffer" where
  "trailing fmt payload = packet_chunk None (- 1) fmt payload"

definition quiet :: "int \<Rightarrow> bool \<Rightarrow> call_result" where
  "quiet r g = \<lparr>ret = r, got_packet = g, callbacks = []\<rparr>"

definition writes :: "int \<Rightarrow> byte list list \<Rightarrow> call_result" where
  "writes r ps = \<lparr>ret = r, got_packet = False, callbacks = payload_calls ps\<rparr>"

text \<open>
  A step of a segment: a buffer the sink yields, the results of the two library calls
  its submission makes (\<open>avcodec_encode_audio2\<close>, then \<open>av_write_frame\<close>) and a payload.
  \<open>one_payload\<close>: the codec call does not fail, yields a packet and invokes no callback,
  and the write hands the output callback exactly that payload, of at most \<open>sizeof(int)\<close>
  bytes. \<open>step_calls\<close>, \<open>step_event\<close> and \<open>step_chunk\<close> are the step's part of the script,
  the sink's result and the chunk the callback builds.
\<close>

type_synonym step = "GrooveBuffer \<times> call_result \<times> call_result \<times> byte list"

definition one_payload :: "step \<Rightarrow> bool" where
  "one_payload s =
     (case s of (b, a, wr, p) \<Rightarrow>
        \<not> ret a < 0 \<and> got_packet a \<and> callbacks a = [] \<and>
        callbacks wr = payload_calls [p] \<and> int (length p) \<le> sizeof_int)"

definition step_calls :: "step \<Rightarrow> call_result list" where
  "step_calls s = (case s of (b, a, wr, p) \<Rightarrow> [a, wr])"

definition step_event :: "step \<Rightarrow> buffer_result \<times> GrooveBuffer option" where
  "step_event s = (case s of (b, a, wr, p) \<Rightarrow> (GROOVE_BUFFER_YES, Some b))"

definition step_chunk :: "step \<Rightarrow> GrooveBuffer" where
  "step_chunk s = (case s of (b, a, wr, p) \<Rightarrow> packet_chunk (item b) (pos b) (format b) p)"

text \<open>
  A turn of the drain loop that goes on: the codec call yields a packet, the write that
  follows invokes no callback. \<open>format_after\<close> is the encode format once the steps are
  done: that of the last buffer.
\<close>

definition quiet_packet :: "call_result \<times> call_result \<Rightarrow> bool" where
  "quiet_packet s =
     (case s of (a, wr) \<Rightarrow>
        \<not> ret a < 0 \<and> got_packet a \<and> callbacks a = [] \<and> callbacks wr = [])"

definition pair_calls :: "call_result \<times> call_result \<Rightarrow> call_result list" where
  "pair_calls s = (case s of (a, wr) \<Rightarrow> [a, wr])"

definition format_after :: "GrooveEncoder \<Rightarrow> step list \<Rightarrow> GrooveAudioFormat" where
  "format_after encoder steps =
     (if steps = [] then encode_format (internals encoder) else format (fst (last steps)))"

text \<open>
  The consumer: \<open>n\<close> successive blocking calls of \<open>groove_encoder_get_buffer\<close>, with their
  results in order; \<open>None\<close> when one of them would wait. \<open>segment_results\<close> lets the worker
  run over a script and the sink's results until it returns, then makes the calls.
\<close>

fun get_buffers ::
  "nat \<Rightarrow> GrooveEncoder \<Rightarrow> (buffer_result \<times> GrooveBuffer option) list option" where
  "get_buffers 0 encoder = Some []"
| "get_buffers (Suc n) encoder =
     (case groove_encoder_get_buffer encoder None True of
        None \<Rightarrow> None
      | Some (r, out, encoder') \<Rightarrow>
          (case get_buffers n encoder' of
             None \<Rightarrow> None
           | Some rs \<Rightarrow> Some ((r, out) # rs)))"

definition segment_results ::
  "nat \<Rightarrow> call_result list \<Rightarrow> (buffer_result \<times> GrooveBuffer option) list \<Rightarrow> world \<Rightarrow>
   GrooveEncoder \<Rightarrow> (buffer_result \<times> GrooveBuffer option) list option" where
  "segment_results n script events w encoder =
     (case encode_thread script events w encoder of
        Some (Inr (r, w', encoder')) \<Rightarrow> get_buffers n encoder'
      | _ \<Rightarrow> None)"

section \<open>Properties of the negotiation\<close>

lemma preferred_insert_dominated:
  assumes "preferred t (insert k K) r"
      and "(t \<le> k \<and> (d < t \<or> k \<le> d)) \<or> (k < t \<and> d \<le> k)"
  shows "preferred t (insert d (insert k K)) r"
  using assms unfolding preferred_def
  by (auto split: if_splits)


lemma sum_list_bits_range:
  "0 \<le> (\<Sum>i\<leftarrow>xs. if P i then 1 else 0 :: int) \<and>
   (\<Sum>i\<leftarrow>xs. if P i then 1 else 0 :: int) \<le> int (length xs)"
  by (induction xs) auto

lemma nb_channels_range: "0 \<le> nb_channels l \<and> nb_channels l \<le> INT_MAX"
  using sum_list_bits_range [of "bit l" "[0..<64]"]
  by (simp add: nb_channels_def INT_MAX_def)

lemma nb_channels_examples:
  "nb_channels 4 = 1" "nb_channels 3 = 2" "nb_channels 63 = 6" "nb_channels 11 = 3"
  by code_simp+

lemma preferred_takes:
  assumes "preferred t (insert (if takes t bk k then k else bk) K) r"
  shows "preferred t (insert bk (insert k K)) r"
proof (cases "takes t bk k")
  case True
  then have "(t \<le> k \<and> (bk < t \<or> k \<le> bk)) \<or> (k < t \<and> bk \<le> k)"
    unfolding takes_def by arith
  with assms True show ?thesis
    using preferred_insert_dominated [of t k K r bk] by simp
next
  case False
  then have "(t \<le> bk \<and> (k < t \<or> bk \<le> k)) \<or> (bk < t \<and> k \<le> bk)"
    unfolding takes_def by arith
  with assms False show ?thesis
    using preferred_insert_dominated [of t bk K r k] by (simp add: insert_commute)
qed

lemma abs_diff_above:
  assumes "0 \<le> t" "t \<le> x" "x \<le> INT_MAX"
  shows "abs_diff t x = Inr (x - t)"
  using assms by (auto simp: abs_diff_def Let_def INT_MAX_def INT_MIN_def)

lemma sample_rate_scan_step:
  assumes "p \<noteq> 0" "p \<noteq> target" "0 \<le> target" "p \<le> INT_MAX" "best \<le> INT_MAX"
  shows "sample_rate_scan target best (p # ps) =
         sample_rate_scan target (if takes target best p then p else best) ps"
  using assms by (auto simp: takes_def abs_diff_above)

lemma sample_rate_scan_hit:
  assumes "0 \<notin> set ps" "target \<in> set ps" "0 \<le> target"
      and "\<forall>x\<in>set ps. x \<le> INT_MAX" "best \<le> INT_MAX"
  shows "sample_rate_scan target best (ps @ 0 # rest) = Inr target"
  using assms
proof (induction ps arbitrary: best)
  case Nil
  then show ?case by simp
next
  case (Cons p ps)
  show ?case
  proof (cases "p = target")
    case True
    with Cons.prems show ?thesis by simp
  next
    case False
    with Cons.prems have "sample_rate_scan target best ((p # ps) @ 0 # rest) =
         sample_rate_scan target (if takes target best p then p else best) (ps @ 0 # rest)"
      using sample_rate_scan_step [of p target best "ps @ 0 # rest"] by simp
    also have "\<dots> = Inr target"
      using Cons.prems False by (intro Cons.IH) auto
    finally show ?thesis .
  qed
qed

lemma sample_rate_scan_miss:
  assumes "0 \<notin> set ps" "target \<notin> set ps" "0 \<le> target"
      and "\<forall>x\<in>set ps. x \<le> INT_MAX" "best \<le> INT_MAX"
  shows "\<exists>r. sample_rate_scan target best (ps @ 0 # rest) = Inr r \<and>
             preferred target (insert best (set ps)) r"
  using assms
proof (induction ps arbitrary: best)
  case Nil
  then show ?case by (simp add: preferred_def)
next
  case (Cons p ps)
  let ?b = "if takes target best p then p else best"
  have step: "sample_rate_scan target best ((p # ps) @ 0 # rest) =
         sample_rate_scan target ?b (ps @ 0 # rest)"
    using Cons.prems sample_rate_scan_step [of p target best "ps @ 0 # rest"] by simp
  have "\<exists>r. sample_rate_scan target ?b (ps @ 0 # rest) = Inr r \<and>
             preferred target (insert ?b (set ps)) r"
    using Cons.prems by (intro Cons.IH) auto
  then obtain r where r: "sample_rate_scan target ?b (ps @ 0 # rest) = Inr r"
    "preferred target (insert ?b (set ps)) r" by blast
  from preferred_takes [OF r(2)] have "preferred target (insert best (set (p # ps))) r" by simp
  with r(1) step show ?case by simp
qed


text \<open>
  Claim C3. For a non-empty array of supported rates ended by 0 and a positive target:
  the negotiation returns a listed rate and runs into no undefined behaviour; a listed
  target is returned unchanged; otherwise, when some listed rate reaches the target, the
  least such rate is returned; otherwise the listed rate nearest to the target in Hz.
\<close>

theorem closest_supported_sample_rate_spec:
  assumes "rates \<noteq> []" and "0 \<notin> set rates"
      and "\<forall>x\<in>set rates. INT_MIN \<le> x \<and> x \<le> INT_MAX"
      and "0 < target" and "target \<le> INT_MAX"
      and "supported_samplerates codec = Some (rates @ 0 # rest)"
  shows "\<exists>r. closest_supported_sample_rate codec target = Inr r \<and> r \<in> set rates \<and>
           (target \<in> set rates \<longrightarrow> r = target) \<and>
           (target \<notin> set rates \<longrightarrow> (\<exists>x\<in>set rates. target \<le> x) \<longrightarrow>
              target \<le> r \<and> (\<forall>x\<in>set rates. target \<le> x \<longrightarrow> r \<le> x)) \<and>
           (target \<notin> set rates \<longrightarrow> (\<forall>x\<in>set rates. x < target) \<longrightarrow>
              (\<forall>x\<in>set rates. \<bar>target - r\<bar> \<le> \<bar>target - x\<bar>))"
proof -
  from assms(1) obtain p ps where rates: "rates = p # ps" by (cases rates) auto
  have call: "closest_supported_sample_rate codec target =
              sample_rate_scan target p (rates @ 0 # rest)"
    by (simp add: closest_supported_sample_rate_def assms(6) rates)
  have bound: "\<forall>x\<in>set rates. x \<le> INT_MAX" "p \<le> INT_MAX"
    using assms(3) rates by auto
  have t0: "0 \<le> target" using assms(4) by simp
  show ?thesis
  proof (cases "target \<in> set rates")
    case True
    from sample_rate_scan_hit [OF assms(2) True t0 bound]
    show ?thesis using call True by simp
  next
    case False
    from sample_rate_scan_miss [OF assms(2) False t0 bound]
    obtain r where r: "sample_rate_scan target p (rates @ 0 # rest) = Inr r"
      "preferred target (insert p (set rates)) r" by blast
    have same: "insert p (set rates) = set rates" using rates by auto
    from r(2) have pref: "preferred target (set rates) r" by (simp only: same)
    then have mem: "r \<in> set rates" by (simp add: preferred_def)
    have up: "(\<exists>x\<in>set rates. target \<le> x) \<longrightarrow>
              target \<le> r \<and> (\<forall>x\<in>set rates. target \<le> x \<longrightarrow> r \<le> x)"
      using pref by (auto simp: preferred_def split: if_splits)
    have down: "(\<forall>x\<in>set rates. x < target) \<longrightarrow>
              (\<forall>x\<in>set rates. \<bar>target - r\<bar> \<le> \<bar>target - x\<bar>)"
    proof (intro impI ballI)
      fix x assume below: "\<forall>x\<in>set rates. x < target" and x: "x \<in> set rates"
      from below have "\<not> (\<exists>x\<in>set rates. target \<le> x)" by auto
      with pref x have "x \<le> r" by (auto simp: preferred_def split: if_splits)
      moreover from below mem have "r < target" by blast
      ultimately show "\<bar>target - r\<bar> \<le> \<bar>target - x\<bar>" by arith
    qed
    show ?thesis using call r(1) mem up down False by simp
  qed
qed

theorem closest_supported_sample_rate_witness:
  "closest_supported_sample_rate
     \<lparr>sample_fmts = None, supported_samplerates = Some [22050, 44100, 48000, 0],
      channel_layouts = None\<rparr> 32000 = Inr 44100"
  using closest_supported_sample_rate_spec
    [of "[22050, 44100, 48000]" 32000
        "\<lparr>sample_fmts = None, supported_samplerates = Some [22050, 44100, 48000, 0],
          channel_layouts = None\<rparr>" "[]"]
  by (auto simp: INT_MAX_def INT_MIN_def)







lemma preferred_closest:
  assumes "preferred t (key ` S) (key b)"
  shows "((\<exists>x\<in>S. t \<le> key x) \<longrightarrow>
            t \<le> key b \<and> (\<forall>x\<in>S. t \<le> key x \<longrightarrow> \<bar>t - key b\<bar> \<le> \<bar>t - key x\<bar>)) \<and>
         ((\<forall>x\<in>S. key x < t) \<longrightarrow> (\<forall>x\<in>S. \<bar>t - key b\<bar> \<le> \<bar>t - key x\<bar>))"
proof (cases "\<exists>x\<in>S. t \<le> key x")
  case True
  with assms have b: "t \<le> key b" "\<forall>x\<in>S. t \<le> key x \<longrightarrow> key b \<le> key x"
    by (auto simp: preferred_def)
  have "\<forall>x\<in>S. t \<le> key x \<longrightarrow> \<bar>t - key b\<bar> \<le> \<bar>t - key x\<bar>"
  proof (intro ballI impI)
    fix x assume "x \<in> S" "t \<le> key x"
    with b show "\<bar>t - key b\<bar> \<le> \<bar>t - key x\<bar>" by fastforce
  qed
  with b(1) True show ?thesis by auto
next
  case False
  with assms have b: "\<forall>x\<in>S. key x \<le> key b" "key b \<in> key ` S"
    by (auto simp: preferred_def)
  from False b(2) have lt: "key b < t" by fastforce
  have "\<forall>x\<in>S. \<bar>t - key b\<bar> \<le> \<bar>t - key x\<bar>"
  proof
    fix x assume "x \<in> S"
    with b(1) have "key x \<le> key b" by blast
    with lt show "\<bar>t - key b\<bar> \<le> \<bar>t - key x\<bar>" by arith
  qed
  with False show ?thesis by auto
qed




lemma channel_layout_scan_step:
  assumes "p \<noteq> 0" "p \<noteq> target" "0 \<le> tc"
      and "av_get_channel_layout_nb_channels lib p \<le> INT_MAX" "bc \<le> INT_MAX"
  shows "channel_layout_scan lib target tc best bc (p # ps) =
         (if takes tc bc (av_get_channel_layout_nb_channels lib p)
          then channel_layout_scan lib target tc p (av_get_channel_layout_nb_channels lib p) ps
          else channel_layout_scan lib target tc best bc ps)"
  using assms by (auto simp: takes_def abs_diff_above Let_def)

lemma channel_layout_scan_hit:
  assumes "0 \<notin> set ps" "target \<in> set ps" "0 \<le> tc"
      and "\<forall>l. av_get_channel_layout_nb_channels lib l \<le> INT_MAX" "bc \<le> INT_MAX"
  shows "channel_layout_scan lib target tc best bc (ps @ 0 # rest) = Inr target"
  using assms
proof (induction ps arbitrary: best bc)
  case Nil
  then show ?case by simp
next
  case (Cons p ps)
  from Cons.prems(1) have pn: "p \<noteq> 0" by auto
  show ?case
  proof (cases "p = target")
    case True
    with pn show ?thesis by simp
  next
    case False
    have IH: "\<And>b k. k \<le> INT_MAX \<Longrightarrow>
        channel_layout_scan lib target tc b k (ps @ 0 # rest) = Inr target"
      using Cons.prems False by (intro Cons.IH) auto
    have "channel_layout_scan lib target tc best bc ((p # ps) @ 0 # rest) =
         (if takes tc bc (av_get_channel_layout_nb_channels lib p)
          then channel_layout_scan lib target tc p (av_get_channel_layout_nb_channels lib p)
                 (ps @ 0 # rest)
          else channel_layout_scan lib target tc best bc (ps @ 0 # rest))"
      using Cons.prems(3,4,5) False pn
        channel_layout_scan_step [of p target tc lib bc best "ps @ 0 # rest"]
      by simp
    also have "\<dots> = Inr target"
      using IH Cons.prems(4,5) by simp
    finally show ?thesis .
  qed
qed

lemma channel_layout_scan_miss:
  assumes "0 \<notin> set ps" "target \<notin> set ps" "0 \<le> tc"
      and "\<forall>l. av_get_channel_layout_nb_channels lib l \<le> INT_MAX"
  shows "\<exists>b\<in>insert best (set ps).
           channel_layout_scan lib target tc best (av_get_channel_layout_nb_channels lib best)
             (ps @ 0 # rest) = Inr b \<and>
           preferred tc (av_get_channel_layout_nb_channels lib ` insert best (set ps))
             (av_get_channel_layout_nb_channels lib b)"
  using assms
proof (induction ps arbitrary: best)
  case Nil
  then show ?case by (simp add: preferred_def)
next
  case (Cons p ps)
  let ?key = "av_get_channel_layout_nb_channels lib"
  let ?b = "if takes tc (?key best) (?key p) then p else best"
  from Cons.prems(1,2) have pn: "p \<noteq> 0" "p \<noteq> target" by auto
  have step: "channel_layout_scan lib target tc best (?key best) ((p # ps) @ 0 # rest) =
              channel_layout_scan lib target tc ?b (?key ?b) (ps @ 0 # rest)"
    using Cons.prems(3,4) pn
      channel_layout_scan_step [of p target tc lib "?key best" best "ps @ 0 # rest"]
    by simp
  have "\<exists>b\<in>insert ?b (set ps).
           channel_layout_scan lib target tc ?b (?key ?b) (ps @ 0 # rest) = Inr b \<and>
           preferred tc (?key ` insert ?b (set ps)) (?key b)"
    using Cons.prems by (intro Cons.IH) auto
  then obtain b where b: "b \<in> insert ?b (set ps)"
    "channel_layout_scan lib target tc ?b (?key ?b) (ps @ 0 # rest) = Inr b"
    "preferred tc (?key ` insert ?b (set ps)) (?key b)" by blast
  have "?key ` insert ?b (set ps) =
        insert (if takes tc (?key best) (?key p) then ?key p else ?key best) (?key ` set ps)"
    by simp
  with b(3) have "preferred tc
      (insert (if takes tc (?key best) (?key p) then ?key p else ?key best) (?key ` set ps)) (?key b)"
    by simp
  from preferred_takes [OF this]
  have "preferred tc (?key ` insert best (set (p # ps))) (?key b)" by simp
  moreover from b(1) have "b \<in> insert best (set (p # ps))" by (auto split: if_splits)
  ultimately show ?case using b(2) step by auto
qed

text \<open>
  Claim C5. For a non-empty array of supported layouts ended by 0: a listed target layout
  is returned unchanged, whatever the channel counts; otherwise the result is a listed
  layout whose channel count is the least one that reaches the target's count, or, when
  no listed count reaches it, the count nearest to the target's.
\<close>

theorem closest_supported_channel_layout_spec:
  assumes "layouts \<noteq> []" and "0 \<notin> set layouts"
      and "channel_layouts codec = Some (layouts @ 0 # rest)"
      and "\<forall>l. 0 \<le> av_get_channel_layout_nb_channels lib l \<and>
               av_get_channel_layout_nb_channels lib l \<le> INT_MAX"
  shows "\<exists>r. closest_supported_channel_layout lib codec target = Inr r \<and> r \<in> set layouts \<and>
           (target \<in> set layouts \<longrightarrow> r = target) \<and>
           (target \<notin> set layouts \<longrightarrow>
              (\<exists>l\<in>set layouts. av_get_channel_layout_nb_channels lib target
                                \<le> av_get_channel_layout_nb_channels lib l) \<longrightarrow>
              av_get_channel_layout_nb_channels lib target \<le> av_get_channel_layout_nb_channels lib r \<and>
              (\<forall>l\<in>set layouts. av_get_channel_layout_nb_channels lib target
                                  \<le> av_get_channel_layout_nb_channels lib l \<longrightarrow>
                 av_get_channel_layout_nb_channels lib r \<le> av_get_channel_layout_nb_channels lib l)) \<and>
           (target \<notin> set layouts \<longrightarrow>
              (\<forall>l\<in>set layouts. av_get_channel_layout_nb_channels lib l
                                < av_get_channel_layout_nb_channels lib target) \<longrightarrow>
              (\<forall>l\<in>set layouts.
                 \<bar>av_get_channel_layout_nb_channels lib target - av_get_channel_layout_nb_channels lib r\<bar>
                 \<le> \<bar>av_get_channel_layout_nb_channels lib target - av_get_channel_layout_nb_channels lib l\<bar>))"
proof -
  let ?key = "av_get_channel_layout_nb_channels lib"
  from assms(1) obtain p ps where layouts: "layouts = p # ps" by (cases layouts) auto
  have call: "closest_supported_channel_layout lib codec target =
              channel_layout_scan lib target (?key target) p (?key p) (layouts @ 0 # rest)"
    by (simp add: closest_supported_channel_layout_def assms(3) layouts)
  have t0: "0 \<le> ?key target" and bound: "\<forall>l. ?key l \<le> INT_MAX" "?key p \<le> INT_MAX"
    using assms(4) by auto
  have same: "insert p (set layouts) = set layouts" using layouts by auto
  show ?thesis
  proof (cases "target \<in> set layouts")
    case True
    from channel_layout_scan_hit [OF assms(2) True t0 bound]
    show ?thesis using call True by simp
  next
    case False
    from channel_layout_scan_miss [OF assms(2) False t0 bound(1), where best=p and rest=rest]
    obtain b where b: "b \<in> set layouts"
      "channel_layout_scan lib target (?key target) p (?key p) (layouts @ 0 # rest) = Inr b"
      "preferred (?key target) (?key ` set layouts) (?key b)"
      unfolding same by blast
    have up: "(\<exists>l\<in>set layouts. ?key target \<le> ?key l) \<longrightarrow>
              ?key target \<le> ?key b \<and> (\<forall>l\<in>set layouts. ?key target \<le> ?key l \<longrightarrow> ?key b \<le> ?key l)"
      using b(3) by (auto simp: preferred_def split: if_splits)
    have down: "(\<forall>l\<in>set layouts. ?key l < ?key target) \<longrightarrow>
              (\<forall>l\<in>set layouts. \<bar>?key target - ?key b\<bar> \<le> \<bar>?key target - ?key l\<bar>)"
      using preferred_closest [OF b(3)] by blast
    show ?thesis using call b(1,2) up down False by simp
  qed
qed

theorem closest_supported_channel_layout_witness:
  "closest_supported_channel_layout libav
     \<lparr>sample_fmts = None, supported_samplerates = None,
      channel_layouts = Some [4, 3, 63, 0]\<rparr> 11 = Inr 63"
  using closest_supported_channel_layout_spec
    [of "[4, 3, 63]"
        "\<lparr>sample_fmts = None, supported_samplerates = None,
          channel_layouts = Some [4, 3, 63, 0]\<rparr>" "[]" libav 11]
    nb_channels_range
  by (auto simp: libav_def nb_channels_examples)

section \<open>Properties of the session\<close>

lemma and_then_Inr [simp]: "and_then (Inr x) f = f x"
  by (simp add: and_then_def)

lemma and_then_Inl [simp]: "and_then (Inl e) f = Inl e"
  by (simp add: and_then_def)

lemma cleanup_all_chunks:
  "None \<notin> set xs \<Longrightarrow>
   cleanup_all audioq_cleanup w xs = Inr (w\<lparr>released := released w @ map the xs\<rparr>)"
proof (induction xs arbitrary: w)
  case Nil
  then show ?case by simp
next
  case (Cons x xs)
  then obtain b where x: "x = Some b" by (cases x) auto
  with Cons show ?case
    by (simp add: audioq_cleanup_def groove_buffer_unref_def)
qed

lemma groove_queue_flush_chunks:
  "None \<notin> set (items q) \<Longrightarrow>
   groove_queue_flush audioq_cleanup w q =
     Inr (w\<lparr>released := released w @ map the (items q)\<rparr>, q\<lparr>items := []\<rparr>)"
  by (simp add: groove_queue_flush_def cleanup_all_chunks)

lemma groove_encoder_detach_result:
  assumes "None \<notin> set (items (audioq (internals encoder)))"
      and "\<forall>h. thread_id (internals encoder) = Some h \<longrightarrow> h \<in> live w"
      and "\<forall>h. codec_ctx (internals encoder) = Some h \<longrightarrow>
             h \<in> live w \<and> thread_id (internals encoder) \<noteq> Some h"
      and "\<forall>h. fmt_ctx (internals encoder) = Some h \<longrightarrow>
             h \<in> live w \<and> thread_id (internals encoder) \<noteq> Some h \<and>
             codec_ctx (internals encoder) \<noteq> Some h"
  shows "groove_encoder_detach w encoder =
     Inr (0,
          w\<lparr>released := released w @ map the (items (audioq (internals encoder))),
            live := live w - set_option (thread_id (internals encoder))
                      - set_option (codec_ctx (internals encoder))
                      - set_option (fmt_ctx (internals encoder))\<rparr>,
          encoder\<lparr>internals := (internals encoder)
             \<lparr>sink := (sink (internals encoder))\<lparr>attached_to := None\<rparr>,
              audioq := \<lparr>items = [], abort_request = True\<rparr>,
              thread_id := None, codec_ctx := None, stream := None,
              encode_head := None, encode_pos := - 1, sent_header := False\<rparr>,
            playlist_of := None\<rparr>)"
  using assms
  by (cases "thread_id (internals encoder)"; cases "codec_ctx (internals encoder)";
      cases "fmt_ctx (internals encoder)"; cases "stream (internals encoder)")
     (auto simp: groove_encoder_detach_def groove_queue_flush_chunks groove_sink_detach_def
        groove_queue_abort_def SDL_WaitThread_def avcodec_close_def av_free_def
        avformat_free_context_def release_def Let_def)


text \<open>
  Every detach that returns returns 0 and resets every field of the session but \<open>fmt_ctx\<close>,
  which it leaves as it was.
\<close>

lemma groove_encoder_detach_detached:
  assumes "groove_encoder_detach w encoder = Inr (r, w', encoder')"
  shows "r = 0 \<and> fmt_ctx (internals encoder') = fmt_ctx (internals encoder) \<and>
         detached (encoder'\<lparr>internals := (internals encoder')\<lparr>fmt_ctx := None\<rparr>\<rparr>)"
  using assms
  by (auto simp: groove_encoder_detach_def and_then_def groove_queue_flush_def
        groove_queue_abort_def groove_sink_detach_def detached_def Let_def
        split: sum.splits option.splits if_splits prod.splits)

lemma groove_queue_reset_chunks:
  "None \<notin> set (items q) \<Longrightarrow>
   groove_queue_reset audioq_cleanup w q =
     Inr (w\<lparr>released := released w @ map the (items q)\<rparr>, \<lparr>items = [], abort_request = False\<rparr>)"
  by (simp add: groove_queue_reset_def groove_queue_flush_chunks)

lemma inj_error_message: "inj error_message"
proof (rule injI)
  fix a b assume "error_message a = error_message b"
  then show "a = b" by (cases a; cases b) simp_all
qed

lemma attach_failed_eq:
  assumes "items (audioq (internals encoder)) = []"
      and "thread_id (internals encoder) = None"
      and "\<forall>h. codec_ctx (internals encoder) = Some h \<longrightarrow> h \<in> live w"
      and "\<forall>h. fmt_ctx (internals encoder) = Some h \<longrightarrow>
             h \<in> live w \<and> codec_ctx (internals encoder) \<noteq> Some h"
  shows "attach_failed w encoder msg =
     Inr (- 1,
          w\<lparr>live := live w - set_option (codec_ctx (internals encoder))
                      - set_option (fmt_ctx (internals encoder)),
            log_lines := log_lines w @ [(AV_LOG_ERROR, msg)]\<rparr>,
          encoder\<lparr>internals := (internals encoder)
             \<lparr>sink := (sink (internals encoder))\<lparr>attached_to := None\<rparr>,
              audioq := \<lparr>items = [], abort_request = True\<rparr>,
              thread_id := None, codec_ctx := None, stream := None,
              encode_head := None, encode_pos := - 1, sent_header := False\<rparr>,
            playlist_of := None\<rparr>)"
proof -
  have "groove_encoder_detach w encoder =
     Inr (0,
          w\<lparr>released := released w @ map the (items (audioq (internals encoder))),
            live := live w - set_option (thread_id (internals encoder))
                      - set_option (codec_ctx (internals encoder))
                      - set_option (fmt_ctx (internals encoder))\<rparr>,
          encoder\<lparr>internals := (internals encoder)
             \<lparr>sink := (sink (internals encoder))\<lparr>attached_to := None\<rparr>,
              audioq := \<lparr>items = [], abort_request = True\<rparr>,
              thread_id := None, codec_ctx := None, stream := None,
              encode_head := None, encode_pos := - 1, sent_header := False\<rparr>,
            playlist_of := None\<rparr>)"
    using assms by (intro groove_encoder_detach_result) auto
  then show ?thesis
    using assms(1,2) by (simp add: attach_failed_def av_log_def)
qed

lemma groove_encoder_detach_dangling:
  assumes "items (audioq (internals encoder)) = []"
      and "thread_id (internals encoder) = None"
      and "codec_ctx (internals encoder) = None"
      and "fmt_ctx (internals encoder) = Some f" and "f \<notin> live w"
  shows "groove_encoder_detach w encoder = Inl (Double_free f)"
  using assms
  by (simp add: groove_encoder_detach_def groove_queue_flush_def groove_queue_abort_def
        SDL_WaitThread_def avformat_free_context_def release_def Let_def)

text \<open>
  Attach on an encoder that is not attached (no worker, no codec context, no stream; the
  queue holds chunks only), with handles allocated fresh and a negotiation free of
  undefined behaviour, for every first failing step among the seven. Attach returns -1
  at each of them, the last line logged is the message of that step, and the seven
  messages are pairwise different (\<open>inj error_message\<close>). Every handle acquired has been
  released and every field of the session is reset, but for \<open>fmt_ctx\<close>: unless the format
  context itself could not be allocated, \<open>fmt_ctx\<close> still points at the released context,
  the session is not \<open>detached\<close>, and a detach that follows releases the context again.
  When no step fails, attach returns 0 with the format context, the codec context and
  the worker thread live and distinct and the sink registered with the playlist.
\<close>

lemma groove_encoder_attach_outcome:
  assumes "None \<notin> set (items (audioq (internals encoder)))"
      and "thread_id (internals encoder) = None"
      and "codec_ctx (internals encoder) = None"
      and "stream (internals encoder) = None"
      and "\<forall>h\<in>live w. h < next_handle w"
      and "\<forall>codec. avcodec_find_encoder_result out = Some codec \<longrightarrow>
             (\<exists>f r l.
                closest_supported_sample_fmt lib codec (sample_fmt (target_audio_format encoder)) = Inr f \<and>
                closest_supported_sample_rate codec (sample_rate (target_audio_format encoder)) = Inr r \<and>
                closest_supported_channel_layout lib codec (channel_layout (target_audio_format encoder)) = Inr l)"
  shows "\<exists>ret w' encoder'.
           groove_encoder_attach lib out w encoder playlist = Inr (ret, w', encoder') \<and>
           (\<forall>step. first_failure out = Some step \<longrightarrow>
              ret = - 1 \<and> live w' = live w \<and>
              last (log_lines w') = (AV_LOG_ERROR, error_message step) \<and>
              detached (encoder'\<lparr>internals := (internals encoder')\<lparr>fmt_ctx := None\<rparr>\<rparr>) \<and>
              fmt_ctx (internals encoder') =
                (if step = Alloc_format_context then None else Some (next_handle w)) \<and>
              (step \<noteq> Alloc_format_context \<longrightarrow>
                 \<not> detached encoder' \<and>
                 groove_encoder_detach w' encoder' = Inl (Double_free (next_handle w)))) \<and>
           (first_failure out = None \<longrightarrow>
              ret = 0 \<and> playlist_of encoder' = playlist \<and>
              attached_to (sink (internals encoder')) = playlist \<and>
              audio_format (sink (internals encoder')) = actual_audio_format encoder' \<and>
              \<not> abort_request (audioq (internals encoder')) \<and>
              (\<exists>f c t. fmt_ctx (internals encoder') = Some f \<and>
                       codec_ctx (internals encoder') = Some c \<and>
                       thread_id (internals encoder') = Some t \<and>
                       distinct [f, c, t] \<and> f \<notin> live w \<and> c \<notin> live w \<and> t \<notin> live w \<and>
                       live w' = live w \<union> {f, c, t})) \<and>
           inj error_message"
proof -
  let ?q = "audioq (internals encoder)"
  let ?w0 = "w\<lparr>released := released w @ map the (items ?q)\<rparr>"
  have reset: "groove_queue_reset audioq_cleanup w ?q = Inr (?w0, \<lparr>items = [], abort_request = False\<rparr>)"
    using assms(1) by (rule groove_queue_reset_chunks)
  have fresh: "next_handle w \<notin> live w" using assms(5) by auto
  show ?thesis
  proof (cases "first_failure out")
    case None
    then have ok: "avformat_alloc_context_ok out" "avformat_new_stream_ok out"
      "avcodec_alloc_context3_ok out" "\<not> avcodec_open2_result out < 0"
      "\<not> groove_sink_attach_result out < 0" "SDL_CreateThread_ok out"
      and "avcodec_find_encoder_result out \<noteq> None"
      by (auto simp: first_failure_def split: if_splits)
    then obtain codec where codec: "avcodec_find_encoder_result out = Some codec" by auto
    from assms(6) codec obtain f r l where neg:
      "closest_supported_sample_fmt lib codec (sample_fmt (target_audio_format encoder)) = Inr f"
      "closest_supported_sample_rate codec (sample_rate (target_audio_format encoder)) = Inr r"
      "closest_supported_channel_layout lib codec (channel_layout (target_audio_format encoder)) = Inr l"
      by blast
    show ?thesis
      using None ok codec neg reset fresh assms(5) inj_error_message
      by (auto simp: groove_encoder_attach_def allocate_def log_audio_fmt_def av_log_def Let_def)
  next
    case (Some step)
    show ?thesis
    proof (cases "avcodec_find_encoder_result out")
      case None
      with Some show ?thesis
        using reset fresh assms(2,3,4) inj_error_message
        by (auto simp: first_failure_def groove_encoder_attach_def allocate_def attach_failed_eq
              groove_encoder_detach_dangling detached_def Let_def split: if_splits)
    next
      case (Some codec)
      from assms(6) Some obtain f r l where neg:
        "closest_supported_sample_fmt lib codec (sample_fmt (target_audio_format encoder)) = Inr f"
        "closest_supported_sample_rate codec (sample_rate (target_audio_format encoder)) = Inr r"
        "closest_supported_channel_layout lib codec (channel_layout (target_audio_format encoder)) = Inr l"
        by blast
      show ?thesis
        using \<open>first_failure out = Some step\<close> Some neg reset fresh assms(2,3,4,5) inj_error_message
        by (auto simp: first_failure_def groove_encoder_attach_def allocate_def attach_failed_eq
              groove_encoder_detach_dangling log_audio_fmt_def av_log_def detached_def Let_def
              split: if_splits)
    qed
  qed
qed

text \<open>
  Claim C9, at an input that breaks it: an encoder is created and attached, and opening
  the codec fails. Attach returns -1 and every handle is released, but \<open>fmt_ctx\<close> still
  points at the released format context (handle 0), so the session is not \<open>detached\<close>;
  a detach that follows releases the format context a second time.
\<close>

theorem groove_encoder_attach_failure_keeps_fmt_ctx:
  "map_sum id (\<lambda>(ret, w', encoder'). (ret, fmt_ctx (internals encoder'), live w', detached encoder'))
     (groove_encoder_attach libav (all_succeed\<lparr>avcodec_open2_result := - 1\<rparr>) empty_world
        groove_encoder_create (Some 7))
     = Inr (- 1, Some 0, {}, False) \<and>
   and_then
     (groove_encoder_attach libav (all_succeed\<lparr>avcodec_open2_result := - 1\<rparr>) empty_world
        groove_encoder_create (Some 7))
     (\<lambda>(ret, w', encoder'). groove_encoder_detach w' encoder')
     = Inl (Double_free 0)"
  by (simp add: groove_encoder_attach_def attach_failed_def groove_encoder_detach_def
        all_succeed_def unconstrained_def empty_world_def groove_encoder_create_def
        groove_queue_reset_def groove_queue_flush_def groove_queue_abort_def
        groove_sink_detach_def allocate_def log_audio_fmt_def av_log_def
        closest_supported_sample_fmt_def closest_supported_sample_rate_def
        closest_supported_channel_layout_def SDL_WaitThread_def avcodec_close_def av_free_def
        avformat_free_context_def release_def detached_def Let_def)

text \<open>
  Claim C1, at the input that breaks it: an encoder is created, attached with every step
  succeeding, and detached twice. The first detach releases the format context (handle 0)
  and leaves the pointer to it in \<open>fmt_ctx\<close>; the second detach releases it again.
\<close>

theorem groove_encoder_detach_twice_double_free:
  "and_then (groove_encoder_attach libav all_succeed empty_world groove_encoder_create (Some 7))
     (\<lambda>(ret, w, encoder).
        and_then (groove_encoder_detach w encoder)
          (\<lambda>(ret1, w1, encoder1). groove_encoder_detach w1 encoder1))
   = Inl (Double_free 0)"
  by (simp add: groove_encoder_attach_def groove_encoder_detach_def all_succeed_def
        unconstrained_def empty_world_def groove_encoder_create_def
        groove_queue_reset_def groove_queue_flush_def groove_queue_abort_def
        groove_sink_detach_def allocate_def log_audio_fmt_def av_log_def
        closest_supported_sample_fmt_def closest_supported_sample_rate_def
        closest_supported_channel_layout_def SDL_WaitThread_def avcodec_close_def av_free_def
        avformat_free_context_def release_def Let_def)

text \<open>
  The same for every session: after a detach that returned, of an encoder whose \<open>fmt_ctx\<close>
  was set, a second detach releases the format context again. A detach of a created
  encoder that was never attached returns 0.
\<close>

lemma groove_encoder_detach_again:
  assumes "groove_encoder_detach w encoder = Inr (r, w1, encoder1)"
      and "fmt_ctx (internals encoder) = Some f"
  shows "groove_encoder_detach w1 encoder1 = Inl (Double_free f)"
proof -
  from assms have st: "items (audioq (internals encoder1)) = []"
    "thread_id (internals encoder1) = None" "codec_ctx (internals encoder1) = None"
    "fmt_ctx (internals encoder1) = Some f" "f \<notin> live w1"
    by (auto simp: groove_encoder_detach_def and_then_def groove_queue_flush_def
          groove_queue_abort_def SDL_WaitThread_def avcodec_close_def av_free_def
          avformat_free_context_def release_def Let_def
          split: sum.splits option.splits if_splits prod.splits)
  then show ?thesis
    by (simp add: groove_encoder_detach_def groove_queue_flush_def
          groove_queue_abort_def SDL_WaitThread_def avformat_free_context_def release_def Let_def)
qed

lemma groove_encoder_detach_unattached:
  "\<exists>w' encoder'. groove_encoder_detach empty_world groove_encoder_create = Inr (0, w', encoder') \<and>
     detached encoder' \<and> live w' = {}"
  by (simp add: groove_encoder_detach_def empty_world_def groove_encoder_create_def
        groove_queue_flush_def groove_queue_abort_def groove_sink_detach_def
        SDL_WaitThread_def detached_def Let_def)

text \<open>
  Claim C6. Against a descriptor whose array for an axis is the null pointer, the
  negotiation of that axis returns the target value; and an attach that resolves a
  backend with all three arrays null and fails at no step stores the target format as
  the actual format.
\<close>

theorem unconstrained_negotiation_round_trip:
  "(sample_fmts codec = None \<longrightarrow>
      closest_supported_sample_fmt lib codec (sample_fmt fmt) = Inr (sample_fmt fmt)) \<and>
   (supported_samplerates codec = None \<longrightarrow>
      closest_supported_sample_rate codec (sample_rate fmt) = Inr (sample_rate fmt)) \<and>
   (channel_layouts codec = None \<longrightarrow>
      closest_supported_channel_layout lib codec (channel_layout fmt) = Inr (channel_layout fmt)) \<and>
   (sample_fmts codec = None \<and> supported_samplerates codec = None \<and> channel_layouts codec = None \<and>
    avcodec_find_encoder_result out = Some codec \<and> first_failure out = None \<and>
    target_audio_format encoder = fmt \<and> items (audioq (internals encoder)) = [] \<longrightarrow>
      (\<exists>w' encoder'. groove_encoder_attach lib out w encoder playlist = Inr (0, w', encoder') \<and>
         actual_audio_format encoder' = fmt))"
  by (auto simp: closest_supported_sample_fmt_def closest_supported_sample_rate_def
        closest_supported_channel_layout_def groove_encoder_attach_def first_failure_def
        groove_queue_reset_def groove_queue_flush_def allocate_def log_audio_fmt_def av_log_def
        Let_def split: if_splits)

theorem unconstrained_negotiation_round_trip_witness:
  "\<exists>w' encoder'.
     groove_encoder_attach libav all_succeed empty_world groove_encoder_create (Some 7)
       = Inr (0, w', encoder') \<and>
     actual_audio_format encoder' =
       \<lparr>sample_rate = 44100, channel_layout = GROOVE_CH_LAYOUT_STEREO,
        sample_fmt = GROOVE_SAMPLE_FMT_S16\<rparr>"
  using unconstrained_negotiation_round_trip
    [of unconstrained libav
        "\<lparr>sample_rate = 44100, channel_layout = GROOVE_CH_LAYOUT_STEREO,
          sample_fmt = GROOVE_SAMPLE_FMT_S16\<rparr>"
        all_succeed groove_encoder_create empty_world "Some 7"]
  by (simp add: unconstrained_def all_succeed_def first_failure_def groove_encoder_create_def)

text \<open>
  Claim C10. The sentinel is the null pointer. Whenever \<open>groove_encoder_get_buffer\<close>
  returns, a result other than \<open>GROOVE_BUFFER_YES\<close> comes with the out-parameter set to
  null, a result \<open>GROOVE_BUFFER_YES\<close> never does, and the result is \<open>GROOVE_BUFFER_END\<close>
  exactly when the queue handed out the null pointer. The call returns whenever it is
  non-blocking, the queue is aborted or the queue is not empty.
\<close>

theorem groove_encoder_get_buffer_null_discipline:
  "end_of_q_sentinel = None \<and>
   (\<forall>r out encoder'.
      groove_encoder_get_buffer encoder buffer block = Some (r, out, encoder') \<longrightarrow>
        (r \<noteq> GROOVE_BUFFER_YES \<longrightarrow> out = None) \<and>
        (r = GROOVE_BUFFER_YES \<longrightarrow> out \<noteq> None) \<and>
        (r = GROOVE_BUFFER_END \<longleftrightarrow>
           (\<exists>q. groove_queue_get (audioq (internals encoder)) buffer block = Some (1, None, q)))) \<and>
   (\<not> block \<or> abort_request (audioq (internals encoder)) \<or>
    items (audioq (internals encoder)) \<noteq> [] \<longrightarrow>
      groove_encoder_get_buffer encoder buffer block \<noteq> None)"
  by (auto simp: groove_encoder_get_buffer_def groove_queue_get_def end_of_q_sentinel_def Let_def
        split: if_splits list.splits option.splits)

theorem groove_encoder_get_buffer_null_discipline_witness:
  "\<exists>encoder'.
     groove_encoder_get_buffer (with_queue [None, Some (chunk (Some 1) [1])])
       (Some (chunk None [])) True = Some (GROOVE_BUFFER_END, None, encoder')"
proof -
  let ?enc = "with_queue [None, Some (chunk (Some 1) [1])]"
  let ?buf = "Some (chunk None [])"
  note spec = groove_encoder_get_buffer_null_discipline [of ?enc ?buf True]
  have "items (audioq (internals ?enc)) \<noteq> []"
    by (simp add: with_queue_def)
  with spec have "groove_encoder_get_buffer ?enc ?buf True \<noteq> None" by blast
  then obtain r out encoder' where
    res: "groove_encoder_get_buffer ?enc ?buf True = Some (r, out, encoder')"
    by (cases "groove_encoder_get_buffer ?enc ?buf True") auto
  have q: "groove_queue_get (audioq (internals ?enc)) ?buf True =
           Some (1, None, \<lparr>items = [Some (chunk (Some 1) [1])], abort_request = False\<rparr>)"
    by (simp add: groove_queue_get_def with_queue_def)
  from spec res q have "r = GROOVE_BUFFER_END" by blast
  moreover from spec res this have "out = None" by auto
  ultimately show ?thesis using res by blast
qed

lemma purge_items_chunks:
  "None \<notin> set xs \<Longrightarrow>
   purge_items (audioq_purge e) audioq_cleanup w xs =
     Inr (w\<lparr>released := released w @
               map the (filter (\<lambda>x. map_option item x = Some (purge_item e)) xs)\<rparr>,
          filter (\<lambda>x. map_option item x \<noteq> Some (purge_item e)) xs)"
proof (induction xs arbitrary: w)
  case Nil
  then show ?case by simp
next
  case (Cons x xs)
  then obtain b where x: "x = Some b" by (cases x) auto
  with Cons show ?case
    by (simp add: audioq_purge_def audioq_cleanup_def groove_buffer_unref_def)
qed

text \<open>
  On a queue that holds chunks only (no sentinel), a purge for \<open>it\<close> returns without
  undefined behaviour; the queue keeps exactly the chunks whose item differs from \<open>it\<close>,
  in their order; the chunks of \<open>it\<close> are passed to cleanup, each once, in queue order;
  the chunks of any other item are the same sequence as before; the encode head is
  cleared (no item, position -1) when it was \<open>it\<close> and is left as it was otherwise.
\<close>

lemma sink_purge_chunks_only:
  assumes "None \<notin> set (items (audioq (internals encoder)))"
  shows "\<exists>w' encoder'.
           sink_purge w encoder it = Inr (w', encoder') \<and>
           items (audioq (internals encoder')) =
             filter (\<lambda>x. map_option item x \<noteq> Some it) (items (audioq (internals encoder))) \<and>
           released w' = released w @
             map the (filter (\<lambda>x. map_option item x = Some it) (items (audioq (internals encoder)))) \<and>
           (\<forall>other. other \<noteq> it \<longrightarrow>
              filter (\<lambda>x. map_option item x = Some other) (items (audioq (internals encoder'))) =
              filter (\<lambda>x. map_option item x = Some other) (items (audioq (internals encoder)))) \<and>
           (encode_head (internals encoder) = it \<longrightarrow>
              encode_head (internals encoder') = None \<and> encode_pos (internals encoder') = - 1) \<and>
           (encode_head (internals encoder) \<noteq> it \<longrightarrow>
              encode_head (internals encoder') = encode_head (internals encoder) \<and>
              encode_pos (internals encoder') = encode_pos (internals encoder))"
proof -
  let ?e = "(internals encoder)\<lparr>purge_item := it\<rparr>"
  have "purge_items (audioq_purge ?e) audioq_cleanup w (items (audioq ?e)) =
     Inr (w\<lparr>released := released w @
               map the (filter (\<lambda>x. map_option item x = Some it) (items (audioq ?e)))\<rparr>,
          filter (\<lambda>x. map_option item x \<noteq> Some it) (items (audioq ?e)))"
    using assms purge_items_chunks [of "items (audioq ?e)" ?e w] by simp
  moreover have "\<And>other xs. other \<noteq> it \<Longrightarrow>
      filter (\<lambda>x. map_option item x = Some other) (filter (\<lambda>x. map_option item x \<noteq> Some it) xs) =
      filter (\<lambda>x. map_option item x = Some other) (xs :: GrooveBuffer option list)"
    by (auto intro: filter_cong)
  ultimately show ?thesis
    by (simp add: sink_purge_def groove_queue_purge_def Let_def)
qed

text \<open>
  Claim C8, at an input that breaks it. The worker encodes one buffer of item 5 into one
  chunk and meets end-of-stream: the queue then holds that chunk and the sentinel, and
  no consumer has taken them yet. A purge for item 5 applies the purge predicate to each
  pending item; on the sentinel \<open>audioq_purge\<close> reads \<open>buffer->item\<close> through the null
  pointer. A purge for another item ends the same way.
\<close>

theorem sink_purge_dereferences_sentinel:
  "(case encode_thread
          [quiet 0 False, quiet 0 True, writes 0 [[1, 2]], quiet 0 False, quiet 1 False,
           quiet 0 False, quiet 0 False]
          [(GROOVE_BUFFER_YES, Some (chunk (Some 5) [9, 9, 9])), (GROOVE_BUFFER_END, None),
           (GROOVE_BUFFER_NO, None)]
          empty_world groove_encoder_create of
      Some (Inr (r, w, encoder)) \<Rightarrow>
        Some (map (map_option item) (items (audioq (internals encoder))),
              sink_purge w encoder (Some 5), sink_purge w encoder (Some 6))
    | _ \<Rightarrow> None)
   = Some ([Some (Some 5), None], Inl Null_dereference, Inl Null_dereference)"
  by code_simp

section \<open>Properties of the callback and the worker\<close>

text \<open>
  Claim C2, at inputs that break it. A payload of 5 bytes is copied into the 4 bytes
  allocated, past the end of the allocation. A payload of 1 byte is enqueued in a chunk
  whose payload buffer has 4 bytes allocated, with the size field 1.
\<close>

theorem encoder_write_packet_allocates_sizeof_int:
  "encoder_write_packet all_allocated empty_world groove_encoder_create [1, 2, 3, 4, 5] 5
     = Inl Heap_overflow \<and>
   map_sum id (\<lambda>(r, w, encoder). (r, map (map_option (\<lambda>b. (data_alloc b, data b, size_f b)))
                                          (items (audioq (internals encoder)))))
     (encoder_write_packet all_allocated empty_world groove_encoder_create [7] 1)
     = Inr (0, [Some (4, [7], 1)])"
  by (simp add: encoder_write_packet_def all_allocated_def groove_encoder_create_def
        sizeof_int_def groove_queue_put_def Let_def)


lemma library_call_quiet:
  "callbacks r = [] \<Longrightarrow> library_call (r # script) w encoder = Some (Inr (r, script, w, encoder))"
  by (simp add: library_call_def)

lemma drain_encoder_done:
  assumes "callbacks d = []" and "ret d < 0 \<or> \<not> got_packet d"
  shows "\<exists>w'. drain_encoder (d # script) w encoder = Some (Inr (script, w', encoder))"
  using assms
  by (subst drain_encoder.simps)
     (auto simp: encode_buffer_def avcodec_encode_audio2_def library_call_quiet Let_def)

lemma flush_writer_done:
  assumes "callbacks f = []" and "ret f \<noteq> 0"
  shows "flush_writer (f # script) w encoder = Some (Inr (script, w, encoder))"
  using assms
  by (subst flush_writer.simps) (simp add: av_write_frame_def library_call_quiet)

lemma write_header_quiet:
  assumes "callbacks h = []" and "\<not> sent_header (internals encoder)"
  shows "\<exists>w'. write_header_if_needed (h # script) w encoder =
           Some (Inr (script, w', encoder\<lparr>internals := (internals encoder)\<lparr>sent_header := True\<rparr>\<rparr>))"
  using assms
  by (simp add: write_header_if_needed_def avformat_write_header_def library_call_quiet Let_def)

lemma get_buffers_chunks:
  assumes "items (audioq (internals encoder)) = map Some cs @ end_of_q_sentinel # rest"
      and "\<not> abort_request (audioq (internals encoder))"
  shows "get_buffers (length cs + 1) encoder =
           Some (map (\<lambda>c. (GROOVE_BUFFER_YES, Some c)) cs @ [(GROOVE_BUFFER_END, None)])"
  using assms
proof (induction cs arbitrary: encoder)
  case Nil
  then show ?case
    by (simp add: groove_encoder_get_buffer_def groove_queue_get_def end_of_q_sentinel_def Let_def)
next
  case (Cons c cs)
  let ?enc1 = "encoder\<lparr>internals := (internals encoder)
                 \<lparr>audioq := (audioq (internals encoder))
                    \<lparr>items := map Some cs @ end_of_q_sentinel # rest\<rparr>\<rparr>\<rparr>"
  have first: "groove_encoder_get_buffer encoder None True = Some (GROOVE_BUFFER_YES, Some c, ?enc1)"
    using Cons.prems
    by (simp add: groove_encoder_get_buffer_def groove_queue_get_def end_of_q_sentinel_def Let_def)
  have "get_buffers (length cs + 1) ?enc1 =
           Some (map (\<lambda>c. (GROOVE_BUFFER_YES, Some c)) cs @ [(GROOVE_BUFFER_END, None)])"
    using Cons.prems by (intro Cons.IH) auto
  with first show ?case by simp
qed

lemma encoder_write_packet_payload:
  assumes "int (length p) \<le> sizeof_int"
  shows "encoder_write_packet all_allocated w encoder p (int (length p)) =
         Inr (0, w, encoder\<lparr>internals := (internals encoder)
                \<lparr>audioq := (audioq (internals encoder))
                   \<lparr>items := items (audioq (internals encoder)) @
                      [Some (packet_chunk (encode_head (internals encoder))
                               (encode_pos (internals encoder))
                               (encode_format (internals encoder)) p)]\<rparr>\<rparr>\<rparr>)"
  using assms
  by (simp add: encoder_write_packet_def all_allocated_def groove_queue_put_def packet_chunk_def
        Let_def)

lemma run_callbacks_payloads:
  assumes "\<forall>p\<in>set ps. int (length p) \<le> sizeof_int"
  shows "run_callbacks (payload_calls ps) w encoder =
         Inr (w, encoder\<lparr>internals := (internals encoder)
                \<lparr>audioq := (audioq (internals encoder))
                   \<lparr>items := items (audioq (internals encoder)) @
                      map (\<lambda>p. Some (packet_chunk (encode_head (internals encoder))
                                       (encode_pos (internals encoder))
                                       (encode_format (internals encoder)) p)) ps\<rparr>\<rparr>\<rparr>)"
  using assms
proof (induction ps arbitrary: encoder)
  case Nil
  then show ?case by (simp add: payload_calls_def)
next
  case (Cons p ps)
  let ?enc1 = "encoder\<lparr>internals := (internals encoder)
                \<lparr>audioq := (audioq (internals encoder))
                   \<lparr>items := items (audioq (internals encoder)) @
                      [Some (packet_chunk (encode_head (internals encoder))
                               (encode_pos (internals encoder))
                               (encode_format (internals encoder)) p)]\<rparr>\<rparr>\<rparr>"
  have "run_callbacks (payload_calls (p # ps)) w encoder = run_callbacks (payload_calls ps) w ?enc1"
    using Cons.prems by (simp add: payload_calls_def encoder_write_packet_payload)
  also have "\<dots> = Inr (w, ?enc1\<lparr>internals := (internals ?enc1)
                \<lparr>audioq := (audioq (internals ?enc1))
                   \<lparr>items := items (audioq (internals ?enc1)) @
                      map (\<lambda>p. Some (packet_chunk (encode_head (internals ?enc1))
                                       (encode_pos (internals ?enc1))
                                       (encode_format (internals ?enc1)) p)) ps\<rparr>\<rparr>\<rparr>)"
    using Cons.prems by (intro Cons.IH) simp
  finally show ?case by simp
qed

lemma library_call_payloads:
  assumes "callbacks r = payload_calls ps" and "\<forall>p\<in>set ps. int (length p) \<le> sizeof_int"
  shows "library_call (r # script) w encoder =
         Some (Inr (r, script, w, encoder\<lparr>internals := (internals encoder)
                \<lparr>audioq := (audioq (internals encoder))
                   \<lparr>items := items (audioq (internals encoder)) @
                      map (\<lambda>p. Some (packet_chunk (encode_head (internals encoder))
                                       (encode_pos (internals encoder))
                                       (encode_format (internals encoder)) p)) ps\<rparr>\<rparr>\<rparr>))"
  using assms by (simp add: library_call_def run_callbacks_payloads)

lemma encode_buffer_step:
  assumes "one_payload (b, a, wr, p)"
  shows "encode_buffer (a # wr # script) w encoder (Some b) =
         Some (Inr (0, script, w,
           encoder\<lparr>internals := (internals encoder)
              \<lparr>encode_head := item b, encode_pos := pos b, encode_format := format b,
               audioq := (audioq (internals encoder))
                 \<lparr>items := items (audioq (internals encoder)) @
                    [Some (step_chunk (b, a, wr, p))]\<rparr>\<rparr>\<rparr>))"
proof -
  from assms have a: "\<not> ret a < 0" "got_packet a" "callbacks a = []"
    and wr: "callbacks wr = payload_calls [p]" and p: "\<forall>q\<in>set [p]. int (length q) \<le> sizeof_int"
    by (simp_all add: one_payload_def)
  show ?thesis
    using a
    by (simp add: encode_buffer_def avcodec_encode_audio2_def av_write_frame_def
          library_call_quiet library_call_payloads [OF wr p] step_chunk_def Let_def)
qed

lemma encode_thread_step:
  assumes "one_payload s" and "sent_header (internals encoder)"
  shows "encode_thread (step_calls s @ script) (step_event s # events) w encoder =
         encode_thread script events (w\<lparr>released := released w @ [fst s]\<rparr>)
           (encoder\<lparr>internals := (internals encoder)
              \<lparr>encode_head := item (fst s), encode_pos := pos (fst s),
               encode_format := format (fst s),
               audioq := (audioq (internals encoder))
                 \<lparr>items := items (audioq (internals encoder)) @ [Some (step_chunk s)]\<rparr>\<rparr>\<rparr>)"
proof -
  obtain b a wr p where s: "s = (b, a, wr, p)" by (cases s) auto
  show ?thesis
    using assms(2) encode_buffer_step [OF assms(1) [unfolded s]]
    by (simp add: s step_calls_def step_event_def write_header_if_needed_def
          groove_buffer_unref_def)
qed

lemma encode_thread_steps:
  assumes "\<forall>s\<in>set steps. one_payload s" and "sent_header (internals encoder)"
  shows "\<exists>w' encoder'.
           encode_thread (concat (map step_calls steps) @ script)
             (map step_event steps @ events) w encoder =
           encode_thread script events w' encoder' \<and>
           sent_header (internals encoder') \<and>
           abort_request (audioq (internals encoder')) = abort_request (audioq (internals encoder)) \<and>
           encode_format (internals encoder') = format_after encoder steps \<and>
           items (audioq (internals encoder')) =
             items (audioq (internals encoder)) @ map Some (map step_chunk steps)"
  using assms
proof (induction steps arbitrary: w encoder)
  case Nil
  then show ?case by (auto simp: format_after_def)
next
  case (Cons s steps)
  let ?enc1 = "encoder\<lparr>internals := (internals encoder)
              \<lparr>encode_head := item (fst s), encode_pos := pos (fst s),
               encode_format := format (fst s),
               audioq := (audioq (internals encoder))
                 \<lparr>items := items (audioq (internals encoder)) @ [Some (step_chunk s)]\<rparr>\<rparr>\<rparr>"
  from Cons.prems have s: "one_payload s" by simp
  from encode_thread_step [OF s Cons.prems(2), of "concat (map step_calls steps) @ script"
      "map step_event steps @ events" w]
  have step:
    "encode_thread (concat (map step_calls (s # steps)) @ script)
             (map step_event (s # steps) @ events) w encoder =
        encode_thread (concat (map step_calls steps) @ script)
             (map step_event steps @ events) (w\<lparr>released := released w @ [fst s]\<rparr>) ?enc1"
    by simp
  have "\<exists>w' encoder'.
           encode_thread (concat (map step_calls steps) @ script)
             (map step_event steps @ events) (w\<lparr>released := released w @ [fst s]\<rparr>) ?enc1 =
           encode_thread script events w' encoder' \<and>
           sent_header (internals encoder') \<and>
           abort_request (audioq (internals encoder')) = abort_request (audioq (internals ?enc1)) \<and>
           encode_format (internals encoder') = format_after ?enc1 steps \<and>
           items (audioq (internals encoder')) =
             items (audioq (internals ?enc1)) @ map Some (map step_chunk steps)"
    using Cons.prems by (intro Cons.IH) auto
  moreover have "format_after ?enc1 steps = format_after encoder (s # steps)"
    by (simp add: format_after_def)
  ultimately show ?case
    unfolding step by auto
qed


lemma encode_buffer_quiet_packet:
  assumes "quiet_packet (a, wr)"
  shows "encode_buffer (a # wr # script) w encoder None = Some (Inr (0, script, w, encoder))"
  using assms
  by (simp add: quiet_packet_def encode_buffer_def avcodec_encode_audio2_def av_write_frame_def
        library_call_quiet Let_def)

lemma drain_encoder_quiet:
  assumes "\<forall>s\<in>set drains. quiet_packet s"
      and "callbacks d = []" and "ret d < 0 \<or> \<not> got_packet d"
  shows "\<exists>w'. drain_encoder (concat (map pair_calls drains) @ d # script) w encoder =
           Some (Inr (script, w', encoder))"
  using assms(1)
proof (induction drains)
  case Nil
  show ?case using drain_encoder_done [OF assms(2,3)] by simp
next
  case (Cons s drains)
  obtain a wr where s: "s = (a, wr)" by (cases s) auto
  with Cons.prems have q: "quiet_packet (a, wr)" by simp
  have "drain_encoder (concat (map pair_calls (s # drains)) @ d # script) w encoder =
        drain_encoder (concat (map pair_calls drains) @ d # script) w encoder"
    by (subst drain_encoder.simps) (simp add: s pair_calls_def encode_buffer_quiet_packet [OF q])
  with Cons show ?case by simp
qed

lemma flush_writer_quiet:
  assumes "\<forall>r\<in>set flushes. ret r = 0 \<and> callbacks r = []"
      and "callbacks f = []" and "ret f \<noteq> 0"
  shows "flush_writer (flushes @ f # script) w encoder = Some (Inr (script, w, encoder))"
  using assms(1)
proof (induction flushes)
  case Nil
  show ?case using flush_writer_done [OF assms(2,3)] by simp
next
  case (Cons r flushes)
  have "flush_writer ((r # flushes) @ f # script) w encoder =
        flush_writer (flushes @ f # script) w encoder"
    using Cons.prems
    by (subst flush_writer.simps) (simp add: av_write_frame_def library_call_quiet)
  with Cons show ?case by simp
qed

lemma end_of_stream_trailer:
  assumes "\<forall>s\<in>set drains. quiet_packet s"
      and "callbacks d = []" and "ret d < 0 \<or> \<not> got_packet d"
      and "\<forall>r\<in>set flushes. ret r = 0 \<and> callbacks r = []"
      and "callbacks f = []" and "ret f \<noteq> 0"
      and "callbacks t = payload_calls tps" and "\<forall>p\<in>set tps. int (length p) \<le> sizeof_int"
  shows "\<exists>w'. end_of_stream (concat (map pair_calls drains) @ d # flushes @ f # t # script) w encoder =
           Some (Inr (script, w',
             encoder\<lparr>internals := (internals encoder)
               \<lparr>audioq := (audioq (internals encoder))
                  \<lparr>items := items (audioq (internals encoder)) @ [end_of_q_sentinel] @
                     map Some (map (trailing (encode_format (internals encoder))) tps)\<rparr>,
                encode_head := None, encode_pos := - 1, sent_header := False\<rparr>\<rparr>))"
proof -
  from drain_encoder_quiet [OF assms(1,2,3), of "flushes @ f # t # script" w encoder]
  obtain w1 where
    d: "drain_encoder (concat (map pair_calls drains) @ d # flushes @ f # t # script) w encoder =
          Some (Inr (flushes @ f # t # script, w1, encoder))"
    by blast
  note fl = flush_writer_quiet [OF assms(4,5,6), of "t # script" w1 encoder]
  show ?thesis
    by (simp add: end_of_stream_def d fl av_write_trailer_def
          library_call_payloads [OF assms(7,8)] groove_queue_put_def trailing_def comp_def Let_def)
qed

lemma write_header_payloads:
  assumes "callbacks h = payload_calls hps" and "\<forall>p\<in>set hps. int (length p) \<le> sizeof_int"
      and "\<not> sent_header (internals encoder)"
  shows "\<exists>w'. write_header_if_needed (h # script) w encoder =
           Some (Inr (script, w',
             encoder\<lparr>internals := (internals encoder)
               \<lparr>audioq := (audioq (internals encoder))
                  \<lparr>items := items (audioq (internals encoder)) @
                     map Some (map (packet_chunk (encode_head (internals encoder))
                                      (encode_pos (internals encoder))
                                      (encode_format (internals encoder))) hps)\<rparr>,
                sent_header := True\<rparr>\<rparr>))"
  using assms(3)
  by (simp add: write_header_if_needed_def avformat_write_header_def
        library_call_payloads [OF assms(1,2)] comp_def Let_def)


text \<open>
  Claim C7, amended. The worker has sent no header, its queue is empty and no abort is
  requested. The sink
  yields the buffers of \<open>steps\<close>, then end-of-stream, then no more data. The library calls
  go as follows: the header write invokes the output callback not at all; every
  submitted buffer yields one packet that the writer hands to the callback as exactly
  one payload (\<open>one_payload\<close>); the drain loop makes any number of turns whose packets
  reach no callback and then a call that fails or yields no packet; the flush loop makes
  any number of calls returning 0 and then one returning something else, none invoking
  the callback; the trailer write and the header write of the next segment hand the
  callback any payloads \<open>tps\<close> and \<open>hps\<close>. Every payload has at most \<open>sizeof(int)\<close> bytes.
  Then the worker returns; the queue holds one chunk per buffer, in submission order,
  each with its buffer's item, position and format and its payload; after them the
  sentinel; and after the sentinel the chunks of the trailer's and the next header's
  payloads, since the source enqueues the sentinel before it writes the trailer. And
  \<open>length steps + 1\<close> blocking calls of \<open>groove_encoder_get_buffer\<close> return the buffers'
  chunks as data results, in that order, followed by one end result.
\<close>

theorem encode_thread_segment:
  assumes "\<not> sent_header (internals encoder)"
      and "items (audioq (internals encoder)) = []"
      and "\<not> abort_request (audioq (internals encoder))"
      and "callbacks h = []"
      and "\<forall>s\<in>set steps. one_payload s"
      and "\<forall>s\<in>set drains. quiet_packet s"
      and "callbacks d = []" and "ret d < 0 \<or> \<not> got_packet d"
      and "\<forall>r\<in>set flushes. ret r = 0 \<and> callbacks r = []"
      and "callbacks f = []" and "ret f \<noteq> 0"
      and "callbacks t = payload_calls tps" and "\<forall>p\<in>set tps. int (length p) \<le> sizeof_int"
      and "callbacks h' = payload_calls hps" and "\<forall>p\<in>set hps. int (length p) \<le> sizeof_int"
  shows "\<exists>w' encoder'.
           encode_thread
             (h # concat (map step_calls steps) @ concat (map pair_calls drains) @
              d # flushes @ f # t # [h'])
             (map step_event steps @ [(GROOVE_BUFFER_END, None), (GROOVE_BUFFER_NO, None)])
             w encoder
             = Some (Inr (0, w', encoder')) \<and>
           items (audioq (internals encoder')) =
             map Some (map step_chunk steps) @ [end_of_q_sentinel] @
             map Some (map (trailing (format_after encoder steps)) (tps @ hps)) \<and>
           segment_results (length steps + 1)
             (h # concat (map step_calls steps) @ concat (map pair_calls drains) @
              d # flushes @ f # t # [h'])
             (map step_event steps @ [(GROOVE_BUFFER_END, None), (GROOVE_BUFFER_NO, None)])
             w encoder =
             Some (map (\<lambda>c. (GROOVE_BUFFER_YES, Some c)) (map step_chunk steps) @
                   [(GROOVE_BUFFER_END, None)])"
proof -
  let ?end = "concat (map pair_calls drains) @ d # flushes @ f # t # [h']"
  let ?data = "concat (map step_calls steps)"
  let ?yes = "map step_event steps"
  let ?tail = "[(GROOVE_BUFFER_END, None), (GROOVE_BUFFER_NO, None)]"
  let ?chunks = "map step_chunk steps"
  let ?fmt = "format_after encoder steps"
  let ?enc0 = "encoder\<lparr>internals := (internals encoder)\<lparr>sent_header := True\<rparr>\<rparr>"
  from write_header_quiet [OF assms(4,1)] obtain w0 where
    hdr: "write_header_if_needed (h # ?data @ ?end) w encoder = Some (Inr (?data @ ?end, w0, ?enc0))"
    by blast
  have sent0: "sent_header (internals ?enc0)" by simp
  have skip: "\<And>script w. write_header_if_needed script w ?enc0 = Some (Inr (script, w, ?enc0))"
    by (simp add: write_header_if_needed_def)
  have start: "encode_thread (h # ?data @ ?end) (?yes @ ?tail) w encoder =
               encode_thread (?data @ ?end) (?yes @ ?tail) w0 ?enc0"
  proof (cases steps)
    case Nil
    then show ?thesis using hdr by (simp add: skip)
  next
    case (Cons s ss)
    then show ?thesis
      using hdr by (cases "step_event s") (simp add: skip)
  qed
  from encode_thread_steps [OF assms(5) sent0, of ?end ?tail w0]
  obtain w1 enc1 where
    run: "encode_thread (?data @ ?end) (?yes @ ?tail) w0 ?enc0 = encode_thread ?end ?tail w1 enc1"
    and sent1: "sent_header (internals enc1)"
    and ab1: "abort_request (audioq (internals enc1)) = abort_request (audioq (internals ?enc0))"
    and fmt1: "encode_format (internals enc1) = format_after ?enc0 steps"
    and q1: "items (audioq (internals enc1)) =
             items (audioq (internals ?enc0)) @ map Some ?chunks"
    by blast
  have fmt1': "encode_format (internals enc1) = ?fmt"
    using fmt1 by (simp add: format_after_def)
  let ?enc2 = "enc1\<lparr>internals := (internals enc1)
               \<lparr>audioq := (audioq (internals enc1))
                  \<lparr>items := items (audioq (internals enc1)) @ [end_of_q_sentinel] @
                     map Some (map (trailing (encode_format (internals enc1))) tps)\<rparr>,
                encode_head := None, encode_pos := - 1, sent_header := False\<rparr>\<rparr>"
  from end_of_stream_trailer [OF assms(6,7,8,9,10,11,12,13), of "[h']" w1 enc1] obtain w2 where
    eos: "end_of_stream ?end w1 enc1 = Some (Inr ([h'], w2, ?enc2))"
    by blast
  let ?enc3 = "?enc2\<lparr>internals := (internals ?enc2)
               \<lparr>audioq := (audioq (internals ?enc2))
                  \<lparr>items := items (audioq (internals ?enc2)) @
                     map Some (map (packet_chunk (encode_head (internals ?enc2))
                                      (encode_pos (internals ?enc2))
                                      (encode_format (internals ?enc2))) hps)\<rparr>,
                sent_header := True\<rparr>\<rparr>"
  have "\<not> sent_header (internals ?enc2)" by simp
  from write_header_payloads [OF assms(14,15) this, of "[]" w2] obtain w3 where
    hdr2: "write_header_if_needed [h'] w2 ?enc2 = Some (Inr ([], w3, ?enc3))"
    by blast
  have fin: "encode_thread ?end ?tail w1 enc1 = Some (Inr (0, w3, ?enc3))"
    using sent1 eos hdr2 by (simp add: write_header_if_needed_def)
  have q3: "items (audioq (internals ?enc3)) =
            map Some ?chunks @ end_of_q_sentinel # map Some (map (trailing ?fmt) (tps @ hps))"
    using q1 assms(2) fmt1' by (simp add: trailing_def)
  have ab3: "\<not> abort_request (audioq (internals ?enc3))"
    using ab1 assms(3) by simp
  from get_buffers_chunks [OF q3 ab3]
  have "get_buffers (length steps + 1) ?enc3 =
          Some (map (\<lambda>c. (GROOVE_BUFFER_YES, Some c)) ?chunks @ [(GROOVE_BUFFER_END, None)])"
    by simp
  with start run fin q3 show ?thesis by (simp add: segment_results_def)
qed

theorem encode_thread_segment_witness:
  "segment_results 3
     (quiet 0 False #
      concat (map step_calls
        [(chunk (Some 5) [9, 9, 9], quiet 0 True, writes 0 [[1, 2]], [1, 2]),
         (chunk (Some 5) [8, 8], quiet 3 True, writes 1 [[3]], [3])]) @
      concat (map pair_calls [(quiet 0 True, quiet 0 False)]) @
      quiet 0 False # [quiet 0 False] @ quiet 1 False # writes 0 [[7]] # [quiet 0 False])
     (map step_event
        [(chunk (Some 5) [9, 9, 9], quiet 0 True, writes 0 [[1, 2]], [1, 2]),
         (chunk (Some 5) [8, 8], quiet 3 True, writes 1 [[3]], [3])] @
      [(GROOVE_BUFFER_END, None), (GROOVE_BUFFER_NO, None)])
     empty_world groove_encoder_create
   = Some [(GROOVE_BUFFER_YES, Some (packet_chunk (Some 5) 0 zero_format [1, 2])),
           (GROOVE_BUFFER_YES, Some (packet_chunk (Some 5) 0 zero_format [3])),
           (GROOVE_BUFFER_END, None)]"
proof -
  let ?steps = "[(chunk (Some 5) [9, 9, 9], quiet 0 True, writes 0 [[1, 2]], [1, 2]),
                 (chunk (Some 5) [8, 8], quiet 3 True, writes 1 [[3]], [3])] :: step list"
  have h1: "\<not> sent_header (internals groove_encoder_create)"
    and h2: "items (audioq (internals groove_encoder_create)) = []"
    and h3: "\<not> abort_request (audioq (internals groove_encoder_create))"
    by (simp_all add: groove_encoder_create_def)
  have q: "callbacks (quiet 0 False) = []" "callbacks (quiet 1 False) = []"
    "ret (quiet 0 False) < 0 \<or> \<not> got_packet (quiet 0 False)" "ret (quiet 1 False) \<noteq> 0"
    by (simp_all add: quiet_def)
  have steps: "\<forall>s\<in>set ?steps. one_payload s"
    by (simp add: one_payload_def quiet_def writes_def sizeof_int_def)
  have drains: "\<forall>s\<in>set [(quiet 0 True, quiet 0 False)]. quiet_packet s"
    by (simp add: quiet_packet_def quiet_def)
  have flushes: "\<forall>r\<in>set [quiet 0 False]. ret r = 0 \<and> callbacks r = []"
    by (simp add: quiet_def)
  have t: "callbacks (writes 0 [[7]]) = payload_calls [[7]]"
    "\<forall>p\<in>set [[7 :: byte]]. int (length p) \<le> sizeof_int"
    by (simp_all add: writes_def sizeof_int_def)
  have h': "callbacks (quiet 0 False) = payload_calls []"
    "\<forall>p\<in>set ([] :: byte list list). int (length p) \<le> sizeof_int"
    by (simp_all add: quiet_def payload_calls_def)
  from encode_thread_segment
    [OF h1 h2 h3 q(1) steps drains q(1) q(3) flushes q(2) q(4) t h', of empty_world]
  have "segment_results (length ?steps + 1)
     (quiet 0 False # concat (map step_calls ?steps) @
      concat (map pair_calls [(quiet 0 True, quiet 0 False)]) @
      quiet 0 False # [quiet 0 False] @ quiet 1 False # writes 0 [[7]] # [quiet 0 False])
     (map step_event ?steps @ [(GROOVE_BUFFER_END, None), (GROOVE_BUFFER_NO, None)])
     empty_world groove_encoder_create
     = Some (map (\<lambda>c. (GROOVE_BUFFER_YES, Some c)) (map step_chunk ?steps) @
             [(GROOVE_BUFFER_END, None)])"
    by blast
  moreover have "map step_chunk ?steps =
      [packet_chunk (Some 5) 0 zero_format [1, 2], packet_chunk (Some 5) 0 zero_format [3]]"
    by (simp add: step_chunk_def chunk_def)
  ultimately show ?thesis
    by (simp del: encode_thread.simps add: numeral_3_eq_3)
qed

text \<open>
  Claim C7 as stated fails in three ways, each with one buffer (N = 1) and then
  end-of-stream. First: the codec reports no packet for the buffer, so nothing is
  written, and the first of the two calls returns the end result, not data. The script,
  call by call: the header is written; the codec takes the buffer and reports no packet;
  the drain call reports no packet; the flush call returns 1; the trailer is written;
  the header of the next segment is written; then the sink has no more data and the
  worker returns. Second: the buffer yields one payload and the trailer write hands the
  callback one more; the two calls return data and end, and a third call returns the
  trailer's chunk as data: the sentinel is not after all chunks of its segment. Third:
  the header write hands the callback a payload too, and the two calls return two data
  results and no end.
\<close>

theorem encode_thread_segment_counterexample:
  "segment_results 1
     [quiet 0 False, quiet 0 False, quiet 0 False, quiet 1 False, quiet 0 False, quiet 0 False]
     [(GROOVE_BUFFER_YES, Some (chunk (Some 5) [9, 9, 9])), (GROOVE_BUFFER_END, None),
      (GROOVE_BUFFER_NO, None)]
     empty_world groove_encoder_create
   = Some [(GROOVE_BUFFER_END, None)] \<and>
   segment_results 3
     [quiet 0 False, quiet 0 True, writes 0 [[1, 2]], quiet 0 False, quiet 1 False,
      writes 0 [[7]], quiet 0 False]
     [(GROOVE_BUFFER_YES, Some (chunk (Some 5) [9, 9, 9])), (GROOVE_BUFFER_END, None),
      (GROOVE_BUFFER_NO, None)]
     empty_world groove_encoder_create
   = Some [(GROOVE_BUFFER_YES, Some (packet_chunk (Some 5) 0 zero_format [1, 2])),
           (GROOVE_BUFFER_END, None),
           (GROOVE_BUFFER_YES, Some (trailing zero_format [7]))] \<and>
   segment_results 2
     [writes 0 [[4]], quiet 0 True, writes 0 [[1, 2]], quiet 0 False, quiet 1 False,
      quiet 0 False, quiet 0 False]
     [(GROOVE_BUFFER_YES, Some (chunk (Some 5) [9, 9, 9])), (GROOVE_BUFFER_END, None),
      (GROOVE_BUFFER_NO, None)]
     empty_world groove_encoder_create
   = Some [(GROOVE_BUFFER_YES, Some (packet_chunk None 0 zero_format [4])),
           (GROOVE_BUFFER_YES, Some (packet_chunk (Some 5) 0 zero_format [1, 2]))]"
  by code_simp

end
